theory Spec2Isabelle
  imports Complex_Main "HOL-Library.Sublist"
begin

section \<open>JavaScript strings\<close>

text \<open>
  A JavaScript string is modelled as a \<^typ>\<open>string\<close>, read as an ASCII string: the case
  conversions below act on the letters A to Z and a to z, and the character classes are
  those of the regular expressions of the source (\<open>\s\<close>, \<open>\d\<close>, \<open>\w\<close>) restricted to
  ASCII. A field that the parsers always fill with a string is a string here, and the
  empty string stands for a missing value as well: both are falsy in every test the
  source makes (\<open>!x\<close>, \<open>x || y\<close>).
\<close>

definition code_of :: "char \<Rightarrow> nat" where
  "code_of c = of_char c"

definition is_upper :: "char \<Rightarrow> bool" where
  "is_upper c = (65 \<le> code_of c \<and> code_of c \<le> 90)"

definition is_lower :: "char \<Rightarrow> bool" where
  "is_lower c = (97 \<le> code_of c \<and> code_of c \<le> 122)"

definition is_digit :: "char \<Rightarrow> bool" where
  "is_digit c = (48 \<le> code_of c \<and> code_of c \<le> 57)"

text \<open>The class \<open>\s\<close>: tab, line feed, vertical tab, form feed, carriage return, space.\<close>

definition is_space :: "char \<Rightarrow> bool" where
  "is_space c = ((9 \<le> code_of c \<and> code_of c \<le> 13) \<or> code_of c = 32)"

text \<open>The class \<open>\w\<close>: letters, digits and the underscore.\<close>

definition is_word :: "char \<Rightarrow> bool" where
  "is_word c = (is_upper c \<or> is_lower c \<or> is_digit c \<or> c = CHR ''_'')"

definition lower_char :: "char \<Rightarrow> char" where
  "lower_char c = (if is_upper c then char_of (code_of c + 32) else c)"

definition upper_char :: "char \<Rightarrow> char" where
  "upper_char c = (if is_lower c then char_of (code_of c - 32) else c)"

definition toLowerCase :: "string \<Rightarrow> string" where
  "toLowerCase s = map lower_char s"

definition toUpperCase :: "string \<Rightarrow> string" where
  "toUpperCase s = map upper_char s"

text \<open>\<open>s.includes(t)\<close>, \<open>s.startsWith(t)\<close> and \<open>s.endsWith(t)\<close>.\<close>

definition includes_str :: "string \<Rightarrow> string \<Rightarrow> bool" where
  "includes_str s t = sublist t s"

definition startsWith :: "string \<Rightarrow> string \<Rightarrow> bool" where
  "startsWith s t = prefix t s"

definition endsWith :: "string \<Rightarrow> string \<Rightarrow> bool" where
  "endsWith s t = suffix t s"

text \<open>\<open>s.trim()\<close> removes the white space at both ends.\<close>

definition trim :: "string \<Rightarrow> string" where
  "trim s = rev (dropWhile is_space (rev (dropWhile is_space s)))"

text \<open>
  \<open>s.split(d)\<close> for a one-character separator: the pieces between the separators, one
  piece more than there are separators (so the empty string gives one empty piece).
\<close>

fun split :: "char \<Rightarrow> string \<Rightarrow> string list" where
  "split d [] = [[]]"
| "split d (c # cs) =
     (if c = d then [] # split d cs
      else (case split d cs of
              [] \<Rightarrow> [[c]]
            | p # ps \<Rightarrow> (c # p) # ps))"

section \<open>JavaScript numbers\<close>

text \<open>
  A JavaScript number is an IEEE 754 double: every operation and every conversion
  returns the double nearest to the exact result, a tie going to the even mantissa. A
  positive double is a pair \<open>(m, e)\<close> standing for \<open>m * 2^e\<close>, with a mantissa of at most 53
  bits.
\<close>

type_synonym double = "nat \<times> int"

fun bits :: "nat \<Rightarrow> nat" where
  "bits n = (if n = 0 then 0 else Suc (bits (n div 2)))"

declare bits.simps [simp del]

text \<open>The integer nearest to \<open>n / d\<close>, a tie going to the even one.\<close>

definition round_half_even :: "nat \<Rightarrow> nat \<Rightarrow> nat" where
  "round_half_even n d =
     (let q = n div d; r = n mod d
      in if 2 * r < d then q
         else if d < 2 * r then Suc q
         else if even q then q else Suc q)"

text \<open>
  The double nearest to the exact quotient \<open>n / d\<close> (\<open>d > 0\<close>). The exponent \<open>e\<close> is the
  one that puts \<open>n / d / 2^e\<close> in the range from \<open>2^52\<close> up to \<open>2^53\<close>; it is one of two
  candidates read off the bit lengths.
\<close>

definition round_to_double :: "nat \<Rightarrow> nat \<Rightarrow> double" where
  "round_to_double n d =
     (if n = 0 then (0, 0)
      else (let e0 = int (bits n) - int (bits d) - 53;
                below = (if e0 < 0 then n * 2 ^ nat (- e0) < 2 ^ 53 * d
                         else n < 2 ^ 53 * d * 2 ^ nat e0);
                e = (if below then e0 else e0 + 1)
            in (if e < 0 then round_half_even (n * 2 ^ nat (- e)) d
                else round_half_even n (d * 2 ^ nat e), e)))"

text \<open>
  The numbers that \<open>parseInt\<close> returns for a string of decimal digits are whole: a
  natural number, or \<open>Infinity\<close> beyond the range of the doubles. \<open>number_of_nat n\<close> is
  the number nearest to \<open>n\<close>: \<open>n\<close> itself when it has at most 53 bits, that is below
  \<open>2^53 = 9007199254740992\<close>, where every whole number is a double, and the rounded value
  above. A number rounds to \<open>Infinity\<close> when its nearest double with an unbounded exponent
  is \<open>2^1024\<close> or more.
\<close>

datatype js_number = Finite nat | Infinite

definition number_of_nat :: "nat \<Rightarrow> js_number" where
  "number_of_nat n =
     (if bits n \<le> 53 then Finite n
      else (case round_to_double n 1 of (m, e) \<Rightarrow>
              (if 2 ^ 1024 \<le> m * 2 ^ nat e then Infinite else Finite (m * 2 ^ nat e))))"

text \<open>\<open>x < y\<close> on such numbers.\<close>

fun number_less :: "js_number \<Rightarrow> js_number \<Rightarrow> bool" where
  "number_less (Finite a) (Finite b) = (a < b)"
| "number_less (Finite a) Infinite = True"
| "number_less Infinite y = False"

text \<open>
  \<open>parseInt(ds)\<close> for a string of decimal digits: \<open>NaN\<close> (here \<open>None\<close>) for the empty
  string, and otherwise the number nearest to the value of the digits. (For more than
  20 significant digits the language lets an implementation read the later digits as
  zeros; the model takes the exact value, as the language also permits.) \<open>x || 0\<close>
  replaces \<open>NaN\<close> and \<open>undefined\<close> by 0.
\<close>

definition digit_value :: "char \<Rightarrow> nat" where
  "digit_value c = code_of c - 48"

definition decimal_value :: "string \<Rightarrow> nat" where
  "decimal_value ds = foldl (\<lambda>n c. 10 * n + digit_value c) 0 ds"

definition parseInt_digits :: "string \<Rightarrow> js_number option" where
  "parseInt_digits ds = (if ds = [] then None else Some (number_of_nat (decimal_value ds)))"

definition or_zero :: "js_number option \<Rightarrow> js_number" where
  "or_zero x = (case x of None \<Rightarrow> Finite 0 | Some n \<Rightarrow> n)"

section \<open>manifestParser.js: version strings and package names\<close>

text \<open>
  \<open>cleanVersionString\<close>: a missing or empty version is \<open>Unknown\<close>; otherwise the leading
  run of range operators is removed (\<open>/^[\^~>=<]+/\<close>), then all white space (\<open>/\s+/g\<close>),
  then the result is trimmed.
\<close>

definition is_range_op :: "char \<Rightarrow> bool" where
  "is_range_op c = (c \<in> set ''^~>=<'')"

definition cleanVersionString :: "string \<Rightarrow> string" where
  "cleanVersionString version =
     (if version = [] then ''Unknown''
      else trim (filter (\<lambda>c. \<not> is_space c) (dropWhile is_range_op version)))"

definition versionsMatch :: "string \<Rightarrow> string \<Rightarrow> bool" where
  "versionsMatch version1 version2 =
     (if version1 = [] \<or> version2 = [] then False
      else (let clean1 = cleanVersionString version1;
                clean2 = cleanVersionString version2
            in clean1 = clean2 \<or> startsWith clean1 clean2 \<or> startsWith clean2 clean1))"

text \<open>
  \<open>normalizePackageName\<close>: lower case, every \<open>_\<close> and \<open>-\<close> removed, the first npm scope
  removed (\<open>/@[\w/-]+\//\<close>, no \<open>g\<close> flag), trimmed.

  The scope pattern matches at the leftmost \<open>@\<close> that is followed by a run of characters
  of \<open>[\w/-]\<close> holding a \<open>/\<close> after at least one character; the match is greedy, so it
  ends at the last such \<open>/\<close> of the run. \<open>scope_match cs\<close> is what is left of \<open>cs\<close>, the text
  after the \<open>@\<close>, once the match is removed.
\<close>

definition is_scope_char :: "char \<Rightarrow> bool" where
  "is_scope_char c = (is_word c \<or> c = CHR ''/'' \<or> c = CHR ''-'')"

definition scope_match :: "string \<Rightarrow> string option" where
  "scope_match cs =
     (let run = takeWhile is_scope_char cs;
          upto_slash = dropWhile (\<lambda>c. c \<noteq> CHR ''/'') (rev (tl run))
      in if upto_slash = [] then None
         else Some (drop (Suc (length upto_slash)) cs))"

fun strip_scope :: "string \<Rightarrow> string" where
  "strip_scope [] = []"
| "strip_scope (c # cs) =
     (if c = CHR ''@'' then (case scope_match cs of
                               Some rest \<Rightarrow> rest
                             | None \<Rightarrow> c # strip_scope cs)
      else c # strip_scope cs)"

definition normalizePackageName :: "string \<Rightarrow> string" where
  "normalizePackageName name =
     (if name = [] then []
      else trim (strip_scope
             (filter (\<lambda>c. c \<noteq> CHR ''_'' \<and> c \<noteq> CHR ''-'') (toLowerCase name))))"

section \<open>The data model\<close>

text \<open>
  A finding, as the report parser produces it. The parser fills every field read here
  with a string (\<open>Unknown\<close> or the empty string where the report says nothing).
\<close>

record finding =
  cveId :: string
  dependency :: string
  version :: string
  reportedVersion :: string
  cvssScore :: rat
  severity :: string
  description :: string
  references :: "string list"
  filePath :: string

text \<open>
  The value stored under a name in one of the manifest's three maps: an object with a
  version and flags in \<open>dependencies\<close>, a bare version string in
  \<open>productionDependencies\<close> and \<open>devDependencies\<close>. The source tells them apart with
  \<open>typeof info === 'object'\<close>.
\<close>

record manifest_entry =
  entry_version :: string
  isDev :: bool
  isOptional :: bool

datatype dep_info = Info manifest_entry | Ver string

fun info_version :: "dep_info \<Rightarrow> string" where
  "info_version (Info e) = entry_version e"
| "info_version (Ver s) = s"

fun info_isOptional :: "dep_info \<Rightarrow> bool" where
  "info_isOptional (Info e) = isOptional e"
| "info_isOptional (Ver s) = False"

text \<open>
  A JavaScript object used as a map is the list of its entries in the order of
  \<open>Object.entries\<close>.
\<close>

type_synonym dep_map = "(string \<times> dep_info) list"

record manifest =
  manifest_name :: string
  manifest_type :: string
  dependencies :: dep_map
  productionDependencies :: dep_map
  devDependencies :: dep_map

datatype confidence_grade = HIGH | MEDIUM | LOW

datatype path_class = prod | non_prod | unknown

datatype reason_code = VERSION_MISMATCH | NON_REACHABLE | ENV_MISMATCH | UNUSED_TRANSITIVE | DEV_ONLY

text \<open>
  A reachability record. \<open>isDirect\<close> and \<open>isDevDependency\<close> are \<open>null\<close> (here \<open>None\<close>) when
  no manifest was supplied.
\<close>

record reach_info =
  isReachable :: bool
  confidence :: confidence_grade
  reason :: string
  isDirect :: "bool option"
  isDevDependency :: "bool option"
  matchedDependency :: "string option"
  actualVersion :: "string option"
  callGraphEvidence :: "string option"
  pathClassification :: path_class

text \<open>
  The analyzer's result: three lists of dependency names and the map of records, an
  object indexed by \<open>vuln.cveId\<close>. A \<open>cveId\<close> is taken not to be the name of a property
  that every object inherits (such as \<open>constructor\<close>), for which the lookup of a key
  that was never stored would not be \<open>undefined\<close>.
\<close>

record reach_results =
  directDependencies :: "string list"
  transitiveDependencies :: "string list"
  unreachableDependencies :: "string list"
  reachabilityMap :: "string \<rightharpoonup> reach_info"

text \<open>The verdict of one check of the classifier (\<open>reason\<close> is \<open>null\<close> when none fired).\<close>

record fp_result =
  isFalsePositive :: bool
  fp_reason :: "reason_code option"
  fp_details :: string
  fp_confidence :: confidence_grade

section \<open>Package names\<close>

text \<open>
  Both analyzers start from \<open>extractPackageName\<close>. A known archive extension at the end
  is removed first (\<open>/\.(jar|war|zip|tar\.gz|tgz|whl|egg)$/i\<close>); no extension of the list
  is the end of another, so at most one matches.
\<close>

definition archive_extensions :: "string list" where
  "archive_extensions = [''.jar'', ''.war'', ''.zip'', ''.tar.gz'', ''.tgz'', ''.whl'', ''.egg'']"

definition strip_extension :: "string \<Rightarrow> string" where
  "strip_extension s =
     (case find (\<lambda>e. endsWith (toLowerCase s) e) archive_extensions of
        Some e \<Rightarrow> take (length s - length e) s
      | None \<Rightarrow> s)"

text \<open>
  The version suffix \<open>/-\d+\.\d+(\.\d+)?([.-][\w.]+)?$/\<close>. \<open>version_tail s\<close> says that \<open>s\<close>,
  the text after a \<open>-\<close>, matches the rest of the pattern up to the end of the string.
  Each run of digits of a match is a maximal one, since what follows it in the pattern
  is never a digit; so the runs are read with \<open>takeWhile\<close>.
\<close>

definition opt_suffix :: "string \<Rightarrow> bool" where
  "opt_suffix r =
     (case r of
        [] \<Rightarrow> False
      | c # t \<Rightarrow> (c = CHR ''.'' \<or> c = CHR ''-'') \<and> t \<noteq> [] \<and>
                 list_all (\<lambda>x. is_word x \<or> x = CHR ''.'') t)"

definition tail_rest :: "string \<Rightarrow> bool" where
  "tail_rest r =
     (r = [] \<or> opt_suffix r \<or>
      (case r of
         [] \<Rightarrow> False
       | c # r' \<Rightarrow> c = CHR ''.'' \<and> takeWhile is_digit r' \<noteq> [] \<and>
                  (dropWhile is_digit r' = [] \<or> opt_suffix (dropWhile is_digit r'))))"

definition version_tail :: "string \<Rightarrow> bool" where
  "version_tail s =
     (takeWhile is_digit s \<noteq> [] \<and>
      (case dropWhile is_digit s of
         [] \<Rightarrow> False
       | c # r \<Rightarrow> c = CHR ''.'' \<and> takeWhile is_digit r \<noteq> [] \<and> tail_rest (dropWhile is_digit r)))"

text \<open>The leftmost match is removed: the text from the first \<open>-\<close> whose rest matches.\<close>

fun strip_version_suffix :: "string \<Rightarrow> string" where
  "strip_version_suffix [] = []"
| "strip_version_suffix (c # cs) =
     (if c = CHR ''-'' \<and> version_tail cs then [] else c # strip_version_suffix cs)"

text \<open>
  \<open>extractPackageName\<close> of falsePositiveDetector.js: the extension goes; a Maven
  coordinate \<open>group:artifact[:version]\<close> gives its second part at once; otherwise an
  \<open>@version\<close> is cut off a name that does not start with \<open>@\<close>, and the version suffix
  goes.
\<close>

definition extractPackageName_fp :: "string \<Rightarrow> string" where
  "extractPackageName_fp dep =
     (if dep = [] then []
      else (let name = strip_extension dep in
        (case (if CHR '':'' \<in> set name then split CHR '':'' name else []) of
           _ # artifact # _ \<Rightarrow> artifact
         | _ \<Rightarrow>
            (let name1 = (if CHR ''@'' \<in> set name \<and> \<not> startsWith name ''@''
                          then hd (split CHR ''@'' name) else name)
             in strip_version_suffix name1))))"

text \<open>
  \<open>extractPackageName\<close> of the reachability analyzer has one step more: a scoped name
  \<open>@scope/pkg@version\<close> is cut at its second \<open>@\<close> (\<open>name.indexOf('@', 1)\<close>).
\<close>

definition cut_scoped_version :: "string \<Rightarrow> string" where
  "cut_scoped_version name =
     (if startsWith name ''@'' \<and> CHR ''@'' \<in> set (tl name)
      then hd name # takeWhile (\<lambda>c. c \<noteq> CHR ''@'') (tl name)
      else name)"

definition extractPackageName_ra :: "string \<Rightarrow> string" where
  "extractPackageName_ra dep =
     (if dep = [] then []
      else (let name = strip_extension dep in
        (case (if CHR '':'' \<in> set name then split CHR '':'' name else []) of
           _ # artifact # _ \<Rightarrow> artifact
         | _ \<Rightarrow>
            (let name1 = (if CHR ''@'' \<in> set name \<and> \<not> startsWith name ''@''
                          then hd (split CHR ''@'' name) else name);
                 name2 = cut_scoped_version name1
             in strip_version_suffix name2))))"

section \<open>falsePositiveDetector.js\<close>

subsection \<open>Comparing versions\<close>

text \<open>
  \<open>isHigherVersion(v1, v2)\<close>: each version is split at the dots, every part loses its
  non-digits and is read as a number with \<open>parseInt\<close> (0 when nothing is left:
  \<open>parseInt(...) || 0\<close>), and the parts are compared from the left, a missing part
  counting as 0 (\<open>parts[i] || 0\<close>).
\<close>

definition version_parts :: "string \<Rightarrow> js_number list" where
  "version_parts v =
     map (\<lambda>p. or_zero (parseInt_digits (filter is_digit p))) (split CHR ''.'' v)"

definition part_at :: "js_number list \<Rightarrow> nat \<Rightarrow> js_number" where
  "part_at ps i = or_zero (if i < length ps then Some (ps ! i) else None)"

function higher_from :: "js_number list \<Rightarrow> js_number list \<Rightarrow> nat \<Rightarrow> bool" where
  "higher_from parts1 parts2 i =
     (if i < max (length parts1) (length parts2)
      then (if number_less (part_at parts2 i) (part_at parts1 i) then True
            else if number_less (part_at parts1 i) (part_at parts2 i) then False
            else higher_from parts1 parts2 (Suc i))
      else False)"
  by pat_completeness auto
termination
  by (relation "measure (\<lambda>(parts1, parts2, i). max (length parts1) (length parts2) - i)") auto

declare higher_from.simps [simp del]

definition isHigherVersion :: "string \<Rightarrow> string \<Rightarrow> bool" where
  "isHigherVersion v1 v2 =
     (if v1 = [] \<or> v2 = [] then False
      else higher_from (version_parts v1) (version_parts v2) 0)"

subsection \<open>The five checks\<close>

definition check_default :: "reason_code \<Rightarrow> fp_result" where
  "check_default r =
     \<lparr>isFalsePositive = False, fp_reason = Some r, fp_details = [], fp_confidence = LOW\<rparr>"

text \<open>\<open>vuln.version || vuln.reportedVersion\<close>\<close>

definition reported_version :: "finding \<Rightarrow> string" where
  "reported_version vuln = (if version vuln \<noteq> [] then version vuln else reportedVersion vuln)"

text \<open>
  \<open>checkVersionMismatch\<close>: the loop over the entries of \<open>manifestData.dependencies\<close>
  returns at the first entry of the same normalized name whose version is known, as
  is the reported one, and does not match it.
\<close>

fun versionMismatch_loop :: "finding \<Rightarrow> string \<Rightarrow> dep_map \<Rightarrow> fp_result" where
  "versionMismatch_loop vuln depName [] = check_default VERSION_MISMATCH"
| "versionMismatch_loop vuln depName ((name, info) # rest) =
     (if normalizePackageName name = normalizePackageName depName
      then (let actual = info_version info;
                reported = reported_version vuln
            in if actual \<noteq> [] \<and> reported \<noteq> [] \<and> \<not> versionsMatch actual reported
               then (if isHigherVersion actual reported
                     then \<lparr>isFalsePositive = True, fp_reason = Some VERSION_MISMATCH,
                           fp_details = ''Actual installed version ('' @ actual @
                             '') is newer than the reported vulnerable version ('' @ reported @
                             ''). The vulnerability may have been patched.'',
                           fp_confidence = HIGH\<rparr>
                     else \<lparr>isFalsePositive = True, fp_reason = Some VERSION_MISMATCH,
                           fp_details = ''Version mismatch: OWASP reported '' @ reported @
                             '', but manifest shows '' @ actual @ ''.'',
                           fp_confidence = MEDIUM\<rparr>)
               else versionMismatch_loop vuln depName rest)
      else versionMismatch_loop vuln depName rest)"

definition checkVersionMismatch :: "finding \<Rightarrow> manifest option \<Rightarrow> fp_result" where
  "checkVersionMismatch vuln manifestData =
     (case manifestData of
        None \<Rightarrow> check_default VERSION_MISMATCH
      | Some m \<Rightarrow>
          versionMismatch_loop vuln (extractPackageName_fp (dependency vuln)) (dependencies m))"

text \<open>
  \<open>checkEnvironmentMismatch\<close> reads \<open>process.platform\<close>; it is the parameter
  \<open>runtimePlatform\<close> here. The loop returns at the first keyword that the description
  holds and whose platforms do not include the running one.
\<close>

definition envSignals :: "(string \<times> string list) list" where
  "envSignals =
     [(''windows'', [''win32'']), (''macos'', [''darwin'']), (''os x'', [''darwin'']),
      (''linux'', [''linux'']), (''android'', [''android'']), (''ios'', [''ios''])]"

fun envSignal_loop :: "string \<Rightarrow> string \<Rightarrow> (string \<times> string list) list \<Rightarrow> fp_result option" where
  "envSignal_loop descr runtimePlatform [] = None"
| "envSignal_loop descr runtimePlatform ((keyword, platforms) # rest) =
     (if includes_str descr keyword \<and> \<not> List.member platforms runtimePlatform
      then Some \<lparr>isFalsePositive = True, fp_reason = Some ENV_MISMATCH,
                 fp_details = ''Vulnerability is described as affecting '' @ keyword @
                   '' environments, but the current runtime platform is '' @ runtimePlatform @ ''.'',
                 fp_confidence = MEDIUM\<rparr>
      else envSignal_loop descr runtimePlatform rest)"

definition checkEnvironmentMismatch :: "string \<Rightarrow> finding \<Rightarrow> manifest option \<Rightarrow> fp_result" where
  "checkEnvironmentMismatch runtimePlatform vuln manifestData =
     (let descr = toLowerCase (description vuln) in
      case envSignal_loop descr runtimePlatform envSignals of
        Some r \<Rightarrow> r
      | None \<Rightarrow>
         (let manifestType = map_option manifest_type manifestData;
              r0 = check_default ENV_MISMATCH;
              r1 = (if manifestType = Some ''npm'' \<and> includes_str descr ''python''
                    then r0\<lparr>isFalsePositive := True, fp_confidence := MEDIUM,
                            fp_details := ''Vulnerability targets Python environments, but the project manifest indicates a Node.js application.''\<rparr>
                    else r0);
              r2 = (if manifestType = Some ''pip'' \<and> includes_str descr ''node''
                    then r1\<lparr>isFalsePositive := True, fp_confidence := MEDIUM,
                            fp_details := ''Vulnerability targets Node.js environments, but the project manifest indicates a Python application.''\<rparr>
                    else r1);
              r3 = (if manifestType = Some ''maven'' \<and> includes_str descr ''node''
                    then r2\<lparr>isFalsePositive := True, fp_confidence := MEDIUM,
                            fp_details := ''Vulnerability targets Node.js ecosystems, but the project manifest indicates a JVM application.''\<rparr>
                    else r2)
          in r3))"

text \<open>\<open>reachabilityResults?.reachabilityMap?.[vuln.cveId]\<close>\<close>

definition reachInfo_of :: "reach_results option \<Rightarrow> finding \<Rightarrow> reach_info option" where
  "reachInfo_of reachabilityResults vuln =
     (case reachabilityResults of
        None \<Rightarrow> None
      | Some res \<Rightarrow> reachabilityMap res (cveId vuln))"

text \<open>\<open>Object.keys(deps).some(name => normalizePackageName(name) === normalizePackageName(depName))\<close>\<close>

definition has_normalized_key :: "dep_map \<Rightarrow> string \<Rightarrow> bool" where
  "has_normalized_key deps depName =
     list_ex (\<lambda>name. normalizePackageName name = normalizePackageName depName) (map fst deps)"

definition checkDevOnlyDependency :: "finding \<Rightarrow> manifest option \<Rightarrow> reach_results option \<Rightarrow> fp_result" where
  "checkDevOnlyDependency vuln manifestData reachabilityResults =
     (case manifestData of
        None \<Rightarrow> check_default DEV_ONLY
      | Some m \<Rightarrow>
          (if (case reachInfo_of reachabilityResults vuln of
                 None \<Rightarrow> False
               | Some ri \<Rightarrow> isDevDependency ri = Some True)
           then \<lparr>isFalsePositive = True, fp_reason = Some DEV_ONLY,
                 fp_details = dependency vuln @
                   '' is listed as a devDependency and is not included in production builds. This vulnerability does not affect production deployments.'',
                 fp_confidence = HIGH\<rparr>
           else (let depName = extractPackageName_fp (dependency vuln);
                     isInDev = has_normalized_key (devDependencies m) depName;
                     isInProd = has_normalized_key (productionDependencies m) depName
                 in if isInDev \<and> \<not> isInProd
                    then \<lparr>isFalsePositive = True, fp_reason = Some DEV_ONLY,
                          fp_details = depName @
                            '' is only listed in devDependencies. This vulnerability does not affect production deployments.'',
                          fp_confidence = HIGH\<rparr>
                    else check_default DEV_ONLY)))"

definition non_reachable_description :: string where
  "non_reachable_description = ''The vulnerable code path is not reachable from the application''"

definition checkReachability :: "finding \<Rightarrow> reach_results option \<Rightarrow> fp_result" where
  "checkReachability vuln reachabilityResults =
     (case reachInfo_of reachabilityResults vuln of
        None \<Rightarrow> check_default NON_REACHABLE
      | Some ri \<Rightarrow>
          (if \<not> isReachable ri
           then \<lparr>isFalsePositive = True, fp_reason = Some NON_REACHABLE,
                 fp_details = (if reason ri \<noteq> [] then reason ri else non_reachable_description),
                 fp_confidence = confidence ri\<rparr>
           else check_default NON_REACHABLE))"

definition checkUnusedTransitive :: "finding \<Rightarrow> manifest option \<Rightarrow> reach_results option \<Rightarrow> fp_result" where
  "checkUnusedTransitive vuln manifestData reachabilityResults =
     (case manifestData of
        None \<Rightarrow> check_default UNUSED_TRANSITIVE
      | Some m \<Rightarrow>
          (case reachInfo_of reachabilityResults vuln of
             None \<Rightarrow> check_default UNUSED_TRANSITIVE
           | Some ri \<Rightarrow>
               (if isDirect ri \<noteq> Some True \<and> confidence ri \<noteq> HIGH
                then (let depName = extractPackageName_fp (dependency vuln);
                          isInManifest = has_normalized_key (dependencies m) depName
                      in if \<not> isInManifest
                         then \<lparr>isFalsePositive = True, fp_reason = Some UNUSED_TRANSITIVE,
                               fp_details = depName @
                                 '' is a transitive dependency not directly declared in the project. It may be pulled in by another dependency but might not be actively used.'',
                               fp_confidence = MEDIUM\<rparr>
                         else check_default UNUSED_TRANSITIVE)
                else check_default UNUSED_TRANSITIVE)))"

subsection \<open>The chain and the list of false positives\<close>

text \<open>
  \<open>analyzeVulnerability\<close> returns the verdict of the first check that fires, in the
  order version, environment, dev-only, reachability, transitive; when none fires the
  verdict has no reason.
\<close>

definition analyzeVulnerability ::
  "string \<Rightarrow> finding \<Rightarrow> manifest option \<Rightarrow> reach_results option \<Rightarrow> fp_result" where
  "analyzeVulnerability runtimePlatform vuln manifestData reachabilityResults =
     (let versionCheck = checkVersionMismatch vuln manifestData in
      if isFalsePositive versionCheck then versionCheck
      else (let envCheck = checkEnvironmentMismatch runtimePlatform vuln manifestData in
      if isFalsePositive envCheck then envCheck
      else (let devCheck = checkDevOnlyDependency vuln manifestData reachabilityResults in
      if isFalsePositive devCheck then devCheck
      else (let reachabilityCheck = checkReachability vuln reachabilityResults in
      if isFalsePositive reachabilityCheck then reachabilityCheck
      else (let transitiveCheck = checkUnusedTransitive vuln manifestData reachabilityResults in
      if isFalsePositive transitiveCheck then transitiveCheck
      else \<lparr>isFalsePositive = False, fp_reason = None, fp_details = [], fp_confidence = LOW\<rparr>)))))"

definition formatDependency :: "string \<Rightarrow> string \<Rightarrow> string" where
  "formatDependency dep ver =
     (if ver \<noteq> [] \<and> ver \<noteq> ''Unknown'' then dep @ ''@'' @ ver else dep)"

record fp_entry =
  cve_id :: string
  fp_dependency :: string
  entry_reason :: "reason_code option"
  entry_details :: string
  entry_confidence :: confidence_grade
  originalVuln :: finding

text \<open>\<open>detectFalsePositives\<close>: one entry is pushed for each finding whose verdict fires.\<close>

fun detect_loop ::
  "string \<Rightarrow> manifest option \<Rightarrow> reach_results option \<Rightarrow> finding list \<Rightarrow> fp_entry list" where
  "detect_loop runtimePlatform manifestData reachabilityResults [] = []"
| "detect_loop runtimePlatform manifestData reachabilityResults (vuln # rest) =
     (let fpResult = analyzeVulnerability runtimePlatform vuln manifestData reachabilityResults
      in if isFalsePositive fpResult
         then \<lparr>cve_id = cveId vuln,
               fp_dependency = formatDependency (dependency vuln) (version vuln),
               entry_reason = fp_reason fpResult,
               entry_details = fp_details fpResult,
               entry_confidence = fp_confidence fpResult,
               originalVuln = vuln\<rparr>
              # detect_loop runtimePlatform manifestData reachabilityResults rest
         else detect_loop runtimePlatform manifestData reachabilityResults rest)"

definition detectFalsePositives ::
  "string \<Rightarrow> finding list \<Rightarrow> manifest option \<Rightarrow> reach_results option \<Rightarrow> fp_entry list" where
  "detectFalsePositives runtimePlatform vulnerabilities manifestData reachabilityResults =
     detect_loop runtimePlatform manifestData reachabilityResults vulnerabilities"

section \<open>The reachability analyzer\<close>

subsection \<open>Dependency matcher\<close>

text \<open>
  \<open>findDependencyMatch\<close> walks the entries of a manifest map once and returns at the
  first entry whose normalized name equals the normalized search name or holds it or is
  held by it. \<open>partialMatch\<close> is set on the second kind of match only (it is
  \<open>undefined\<close>, here \<open>False\<close>, on an exact one).
\<close>

record dep_match =
  match_name :: string
  match_version :: string
  match_info :: dep_info
  partialMatch :: bool

fun findMatch_loop :: "string \<Rightarrow> dep_map \<Rightarrow> dep_match option" where
  "findMatch_loop normalizedSearch [] = None"
| "findMatch_loop normalizedSearch ((name, info) # rest) =
     (let normalizedName = normalizePackageName name in
      if normalizedName = normalizedSearch
      then Some \<lparr>match_name = name, match_version = info_version info,
                 match_info = info, partialMatch = False\<rparr>
      else if includes_str normalizedName normalizedSearch \<or>
              includes_str normalizedSearch normalizedName
      then Some \<lparr>match_name = name, match_version = info_version info,
                 match_info = info, partialMatch = True\<rparr>
      else findMatch_loop normalizedSearch rest)"

definition findDependencyMatch :: "string \<Rightarrow> dep_map \<Rightarrow> dep_match option" where
  "findDependencyMatch depName manifestDeps =
     (if depName = [] then None
      else findMatch_loop (normalizePackageName depName) manifestDeps)"

subsection \<open>Path classifier\<close>

definition nonProdMarkers :: "string list" where
  "nonProdMarkers = [''test'', ''__tests__'', ''spec'', ''__mocks__'', ''example'',
     ''examples'', ''demo'', ''sample'', ''fixture'']"

definition backslash :: char where
  "backslash = char_of (92 :: nat)"

definition classifyPath :: "string \<Rightarrow> path_class" where
  "classifyPath path =
     (if path = [] then unknown
      else (let lowered = toLowerCase path;
                isNonProd = list_ex (\<lambda>marker.
                   includes_str lowered (''/'' @ marker @ ''/'') \<or>
                   includes_str lowered (backslash # marker @ [backslash]) \<or>
                   endsWith lowered (''/'' @ marker) \<or>
                   endsWith lowered (backslash # marker)) nonProdMarkers
            in if isNonProd then non_prod else prod))"

subsection \<open>Call-graph evidence\<close>

text \<open>
  The call graph is the parsed JSON object of the request: nodes under \<open>nodes\<close> or
  \<open>functions\<close>, edges under \<open>edges\<close> or \<open>calls\<close> (a key that is absent is \<open>None\<close>; an array,
  even an empty one, is truthy, so \<open>functions\<close> is read only when \<open>nodes\<close> is absent).
\<close>

record cg_node =
  node_name :: string
  node_id :: string

record cg_edge =
  edge_from :: string
  edge_source :: string
  edge_to :: string
  edge_target :: string

record call_graph =
  cg_nodes :: "cg_node list option"
  cg_functions :: "cg_node list option"
  cg_edges :: "cg_edge list option"
  cg_calls :: "cg_edge list option"

record cg_result =
  cg_isReachable :: bool
  cg_confidence :: confidence_grade
  cg_reason :: string
  cg_evidence :: string

text \<open>\<open>a || b\<close> on strings.\<close>

definition js_or :: "string \<Rightarrow> string \<Rightarrow> string" where
  "js_or a b = (if a \<noteq> [] then a else b)"

definition graph_nodes :: "call_graph \<Rightarrow> cg_node list" where
  "graph_nodes cg = (case cg_nodes cg of Some ns \<Rightarrow> ns
                     | None \<Rightarrow> (case cg_functions cg of Some ns \<Rightarrow> ns | None \<Rightarrow> []))"

definition graph_edges :: "call_graph \<Rightarrow> cg_edge list" where
  "graph_edges cg = (case cg_edges cg of Some es \<Rightarrow> es
                     | None \<Rightarrow> (case cg_calls cg of Some es \<Rightarrow> es | None \<Rightarrow> []))"

definition node_label :: "cg_node \<Rightarrow> string" where
  "node_label node = js_or (node_name node) (js_or (node_id node) [])"

definition edge_start :: "cg_edge \<Rightarrow> string" where
  "edge_start edge = js_or (edge_from edge) (js_or (edge_source edge) [])"

definition edge_end :: "cg_edge \<Rightarrow> string" where
  "edge_end edge = js_or (edge_to edge) (js_or (edge_target edge) [])"

definition assessCallGraphReachability :: "finding \<Rightarrow> call_graph option \<Rightarrow> cg_result option" where
  "assessCallGraphReachability vuln callGraph =
     (case callGraph of
        None \<Rightarrow> None
      | Some cg \<Rightarrow>
         (let dependencyName = extractPackageName_ra (dependency vuln);
              normalized = normalizePackageName dependencyName;
              referencedByNode =
                list_ex (\<lambda>node. normalizePackageName (node_label node) = normalized)
                  (graph_nodes cg);
              referencedByEdge =
                list_ex (\<lambda>edge.
                   includes_str (normalizePackageName (edge_start edge)) normalized \<or>
                   includes_str (normalizePackageName (edge_end edge)) normalized)
                  (graph_edges cg)
          in if \<not> referencedByNode \<and> \<not> referencedByEdge
             then Some \<lparr>cg_isReachable = False, cg_confidence = HIGH,
                        cg_reason = ''Call graph analysis: no invocation path to the vulnerable component'',
                        cg_evidence = ''No call graph nodes or edges reference this dependency''\<rparr>
             else Some \<lparr>cg_isReachable = True,
                        cg_confidence = (if referencedByEdge then HIGH else MEDIUM),
                        cg_reason = ''Call graph analysis: vulnerable component is referenced in application call graph'',
                        cg_evidence = ''Call graph contains references to the vulnerable component''\<rparr>))"

subsection \<open>One record per finding\<close>

text \<open>
  Without a manifest the record comes from the call graph and the path alone
  (\<open>callGraphResult?.isReachable ?? true\<close>, and so on).
\<close>

definition non_prod_reason :: string where
  "non_prod_reason = ''Vulnerability exists in non-production/test/example path''"

definition record_without_manifest :: "call_graph option \<Rightarrow> finding \<Rightarrow> reach_info" where
  "record_without_manifest callGraph vuln =
     (let callGraphResult = assessCallGraphReachability vuln callGraph;
          pathClass = classifyPath (filePath vuln)
      in \<lparr>isReachable = (case callGraphResult of Some c \<Rightarrow> cg_isReachable c | None \<Rightarrow> True),
          confidence = (case callGraphResult of
                          Some c \<Rightarrow> cg_confidence c
                        | None \<Rightarrow> (if pathClass = non_prod then MEDIUM else LOW)),
          reason = js_or (case callGraphResult of Some c \<Rightarrow> cg_reason c | None \<Rightarrow> [])
                     (if pathClass = non_prod then non_prod_reason
                      else ''No manifest provided - reachability assumed''),
          isDirect = None,
          isDevDependency = None,
          matchedDependency = None,
          actualVersion = None,
          callGraphEvidence = (case callGraphResult of
                                 Some c \<Rightarrow> (if cg_evidence c \<noteq> [] then Some (cg_evidence c) else None)
                               | None \<Rightarrow> None),
          pathClassification = pathClass\<rparr>)"

text \<open>
  With a manifest the record starts from a baseline and is overwritten by the steps of
  the loop body, in the order of the source.
\<close>

definition optional_not_prod :: "dep_match option \<Rightarrow> dep_match option \<Rightarrow> bool" where
  "optional_not_prod directMatch prodMatch =
     ((case directMatch of Some d \<Rightarrow> info_isOptional (match_info d) | None \<Rightarrow> False) \<and>
      prodMatch = None)"

definition record_with_manifest :: "manifest \<Rightarrow> call_graph option \<Rightarrow> finding \<Rightarrow> reach_info" where
  "record_with_manifest m callGraph vuln =
     (let depName = extractPackageName_ra (dependency vuln);
          directMatch = findDependencyMatch depName (dependencies m);
          prodMatch = findDependencyMatch depName (productionDependencies m);
          devMatch = findDependencyMatch depName (devDependencies m);
          r0 = \<lparr>isReachable = True, confidence = MEDIUM,
                reason = ''No reachability blockers detected'',
                isDirect = Some False, isDevDependency = Some False,
                matchedDependency = None, actualVersion = None,
                callGraphEvidence = None,
                pathClassification = classifyPath (filePath vuln)\<rparr>;
          r1 = (case directMatch of
                  Some d \<Rightarrow> r0\<lparr>isDirect := Some True,
                               matchedDependency := Some (match_name d),
                               actualVersion := Some (match_version d)\<rparr>
                | None \<Rightarrow> r0);
          r2 = (case assessCallGraphReachability vuln callGraph of
                  Some c \<Rightarrow> r1\<lparr>callGraphEvidence := Some (cg_evidence c),
                               isReachable := cg_isReachable c,
                               confidence := cg_confidence c,
                               reason := cg_reason c\<rparr>
                | None \<Rightarrow> r1);
          r3 = (if devMatch \<noteq> None \<and> prodMatch = None
                then r2\<lparr>isDevDependency := Some True, isReachable := False, confidence := HIGH,
                        reason := ''Development-only dependency - not included in production builds''\<rparr>
                else r2);
          r4 = (if devMatch = None \<and> prodMatch \<noteq> None
                then r3\<lparr>isReachable := True, confidence := HIGH,
                        reason := ''Direct production dependency - code is reachable''\<rparr>
                else r3);
          r5 = (if directMatch = None
                then r4\<lparr>isDirect := Some False,
                        reason := ''Transitive dependency - may or may not be reachable'',
                        isReachable := True\<rparr>
                else r4);
          r6 = (if pathClassification r5 = non_prod
                then r5\<lparr>isReachable := False, confidence := HIGH, reason := non_prod_reason\<rparr>
                else r5);
          r7 = (if optional_not_prod directMatch prodMatch
                then r6\<lparr>isReachable := False, confidence := MEDIUM,
                        reason := ''Optional dependency not included in production runtime''\<rparr>
                else r6)
      in r7)"

definition reachability_record :: "manifest option \<Rightarrow> call_graph option \<Rightarrow> finding \<Rightarrow> reach_info" where
  "reachability_record manifestData callGraph vuln =
     (case manifestData of
        None \<Rightarrow> record_without_manifest callGraph vuln
      | Some m \<Rightarrow> record_with_manifest m callGraph vuln)"

subsection \<open>The loop over the findings\<close>

text \<open>
  One pass of the loop body: the dependency is pushed on the lists as the steps fire, and
  the record is stored under the finding's \<open>cveId\<close>
  (\<open>results.reachabilityMap[vuln.cveId] = ...\<close>).
\<close>

definition step_without_manifest :: "call_graph option \<Rightarrow> reach_results \<Rightarrow> finding \<Rightarrow> reach_results" where
  "step_without_manifest callGraph results vuln =
     results\<lparr>reachabilityMap := (reachabilityMap results)(cveId vuln \<mapsto> record_without_manifest callGraph vuln),
             unreachableDependencies := unreachableDependencies results @
               (if classifyPath (filePath vuln) = non_prod then [dependency vuln] else [])\<rparr>"

definition step_with_manifest :: "manifest \<Rightarrow> call_graph option \<Rightarrow> reach_results \<Rightarrow> finding \<Rightarrow> reach_results" where
  "step_with_manifest m callGraph results vuln =
     (let depName = extractPackageName_ra (dependency vuln);
          directMatch = findDependencyMatch depName (dependencies m);
          prodMatch = findDependencyMatch depName (productionDependencies m);
          devMatch = findDependencyMatch depName (devDependencies m)
      in results\<lparr>
           unreachableDependencies := unreachableDependencies results @
             (if devMatch \<noteq> None \<and> prodMatch = None then [dependency vuln] else []) @
             (if classifyPath (filePath vuln) = non_prod then [dependency vuln] else []) @
             (if optional_not_prod directMatch prodMatch then [dependency vuln] else []),
           directDependencies := directDependencies results @
             (if devMatch = None \<and> prodMatch \<noteq> None then [dependency vuln] else []),
           transitiveDependencies := transitiveDependencies results @
             (if directMatch = None then [dependency vuln] else []),
           reachabilityMap := (reachabilityMap results)(cveId vuln \<mapsto> record_with_manifest m callGraph vuln)\<rparr>)"

definition empty_results :: reach_results where
  "empty_results = \<lparr>directDependencies = [], transitiveDependencies = [],
     unreachableDependencies = [], reachabilityMap = Map.empty\<rparr>"

definition analyzeReachability :: "finding list \<Rightarrow> manifest option \<Rightarrow> call_graph option \<Rightarrow> reach_results" where
  "analyzeReachability vulnerabilities manifestData callGraph =
     (case manifestData of
        None \<Rightarrow> foldl (step_without_manifest callGraph) empty_results vulnerabilities
      | Some m \<Rightarrow> foldl (step_with_manifest m callGraph) empty_results vulnerabilities)"

section \<open>The JSON generator\<close>

subsection \<open>Numbers\<close>

text \<open>
  \<open>calculateFpRate\<close> divides and multiplies numbers, each operation returning the
  nearest double. The counts are array lengths, far below \<open>2^53\<close>, and the results stay
  between 0 and 100, so neither overflow nor subnormal numbers arise.
\<close>

text \<open>\<open>a / b\<close> for two counts, \<open>x * k\<close> for a double and a count, and \<open>Math.round(x)\<close>
  (the nearest integer, a tie going up).\<close>

definition double_div :: "nat \<Rightarrow> nat \<Rightarrow> double" where
  "double_div a b = round_to_double a b"

definition double_times :: "double \<Rightarrow> nat \<Rightarrow> double" where
  "double_times x k =
     (case x of (m, e) \<Rightarrow>
        if e < 0 then round_to_double (m * k) (2 ^ nat (- e))
        else round_to_double (m * k * 2 ^ nat e) 1)"

definition math_round :: "double \<Rightarrow> nat" where
  "math_round x =
     (case x of (m, e) \<Rightarrow>
        if e < 0 then (2 * m + 2 ^ nat (- e)) div (2 * 2 ^ nat (- e))
        else m * 2 ^ nat e)"

definition calculateFpRate :: "nat \<Rightarrow> nat \<Rightarrow> nat" where
  "calculateFpRate fpCount trueCount =
     (let total = fpCount + trueCount
      in if total = 0 then 0
         else math_round (double_times (double_div fpCount total) 100))"

subsection \<open>Risk score\<close>

text \<open>
  A true vulnerability as \<open>generateJsonOutput\<close> receives it. An absent \<open>severity\<close> is the
  empty string, absent \<open>references\<close> or \<open>affected_versions\<close> the empty list.
\<close>

record true_vuln =
  tv_cve_id :: string
  tv_dependency :: string
  tv_severity :: string
  tv_cvss_score :: rat
  tv_description :: string
  tv_recommended_fix :: string
  tv_references :: "string list"
  tv_affected_versions :: "string list"

text \<open>
  \<open>weights[severity] || 1\<close>. The key is upper case, so it is never one of the inherited
  properties of the table, whose names all hold a lower-case letter.
\<close>

definition weight_of :: "string \<Rightarrow> nat" where
  "weight_of sev =
     (if sev = ''CRITICAL'' then 25
      else if sev = ''HIGH'' then 15
      else if sev = ''MEDIUM'' then 5
      else if sev = ''LOW'' then 1
      else 1)"

fun riskScore_loop :: "nat \<Rightarrow> true_vuln list \<Rightarrow> nat" where
  "riskScore_loop score [] = score"
| "riskScore_loop score (vuln # rest) =
     riskScore_loop (score + weight_of (toUpperCase (js_or (tv_severity vuln) ''LOW''))) rest"

definition calculateRiskScore :: "true_vuln list \<Rightarrow> nat" where
  "calculateRiskScore vulnerabilities =
     (if vulnerabilities = [] then 0
      else min 100 (riskScore_loop 0 vulnerabilities))"

subsection \<open>Summary and output\<close>

record severity_counts =
  critical :: nat
  high :: nat
  medium :: nat
  low :: nat

definition count_severity :: "severity_counts \<Rightarrow> true_vuln \<Rightarrow> severity_counts" where
  "count_severity counts vuln =
     (let sev = toLowerCase (js_or (tv_severity vuln) ''low'')
      in if sev = ''critical'' then counts\<lparr>critical := critical counts + 1\<rparr>
         else if sev = ''high'' then counts\<lparr>high := high counts + 1\<rparr>
         else if sev = ''medium'' then counts\<lparr>medium := medium counts + 1\<rparr>
         else if sev = ''low'' then counts\<lparr>low := low counts + 1\<rparr>
         else counts)"

fun reason_name :: "reason_code option \<Rightarrow> string" where
  "reason_name None = ''UNKNOWN''"
| "reason_name (Some VERSION_MISMATCH) = ''VERSION_MISMATCH''"
| "reason_name (Some NON_REACHABLE) = ''NON_REACHABLE''"
| "reason_name (Some ENV_MISMATCH) = ''ENV_MISMATCH''"
| "reason_name (Some UNUSED_TRANSITIVE) = ''UNUSED_TRANSITIVE''"
| "reason_name (Some DEV_ONLY) = ''DEV_ONLY''"

definition count_reason :: "(string \<rightharpoonup> nat) \<Rightarrow> fp_entry \<Rightarrow> (string \<rightharpoonup> nat)" where
  "count_reason counts fp =
     (let r = reason_name (entry_reason fp)
      in counts(r \<mapsto> (case counts r of None \<Rightarrow> 0 | Some n \<Rightarrow> n) + 1))"

record summary =
  total_scanned :: nat
  false_positive_rate :: nat
  severity_breakdown :: severity_counts
  false_positive_reasons :: "string \<rightharpoonup> nat"
  risk_score :: nat
  requires_immediate_action :: bool

definition generateSummary :: "fp_entry list \<Rightarrow> true_vuln list \<Rightarrow> summary" where
  "generateSummary falsePositives trueVulnerabilities =
     (let severityCounts = foldl count_severity
            \<lparr>critical = 0, high = 0, medium = 0, low = 0\<rparr> trueVulnerabilities;
          fpReasonCounts = foldl count_reason Map.empty falsePositives
      in \<lparr>total_scanned = length falsePositives + length trueVulnerabilities,
          false_positive_rate = calculateFpRate (length falsePositives) (length trueVulnerabilities),
          severity_breakdown = severityCounts,
          false_positive_reasons = fpReasonCounts,
          risk_score = calculateRiskScore trueVulnerabilities,
          requires_immediate_action = (critical severityCounts > 0 \<or> high severityCounts > 0)\<rparr>)"

record fp_output =
  out_cve_id :: string
  out_dependency :: string
  out_reason :: "reason_code option"
  out_details :: string
  out_confidence :: confidence_grade

definition formatFalsePositives :: "fp_entry list \<Rightarrow> fp_output list" where
  "formatFalsePositives falsePositives =
     map (\<lambda>fp. \<lparr>out_cve_id = cve_id fp, out_dependency = fp_dependency fp,
                 out_reason = entry_reason fp, out_details = entry_details fp,
                 out_confidence = entry_confidence fp\<rparr>) falsePositives"

definition formatTrueVulnerabilities :: "true_vuln list \<Rightarrow> true_vuln list" where
  "formatTrueVulnerabilities vulnerabilities =
     map (\<lambda>vuln. vuln\<lparr>tv_references := take 3 (tv_references vuln)\<rparr>) vulnerabilities"

record output_metadata =
  analysis_timestamp :: string
  project_name :: string
  tool_version :: string
  owasp_report_name :: string
  total_vulnerabilities_scanned :: nat
  false_positives_identified :: nat
  true_vulnerabilities_found :: nat

record json_output =
  false_positives :: "fp_output list"
  true_vulnerabilities :: "true_vuln list"
  metadata :: output_metadata
  analysis_metadata :: output_metadata
  summary_of :: summary

text \<open>
  \<open>generateJsonOutput\<close>; the time stamp (\<open>new Date().toISOString()\<close>) is the parameter
  \<open>now\<close>, and the third argument of the source is the pair of names \<open>projectName\<close> and
  \<open>owaspReportName\<close>.
\<close>

definition generateJsonOutput ::
  "string \<Rightarrow> fp_entry list \<Rightarrow> true_vuln list \<Rightarrow> string \<Rightarrow> string \<Rightarrow> json_output" where
  "generateJsonOutput now falsePositives trueVulnerabilities projectName owaspReportName =
     (let enrichedMetadata =
            \<lparr>analysis_timestamp = now,
             project_name = js_or projectName ''Unknown Project'',
             tool_version = ''1.0.0'',
             owasp_report_name = js_or owaspReportName ''Unknown'',
             total_vulnerabilities_scanned = length falsePositives + length trueVulnerabilities,
             false_positives_identified = length falsePositives,
             true_vulnerabilities_found = length trueVulnerabilities\<rparr>
      in \<lparr>false_positives = formatFalsePositives falsePositives,
          true_vulnerabilities = formatTrueVulnerabilities trueVulnerabilities,
          metadata = enrichedMetadata,
          analysis_metadata = enrichedMetadata,
          summary_of = generateSummary falsePositives trueVulnerabilities\<rparr>)"

section \<open>The true vulnerabilities and the analysis route\<close>

text \<open>
  Modelled from the spec: \<open>extractVulnerabilities\<close> of
  \<open>analyzers/vulnerabilityExtractor.js\<close>, which the route calls to build the list of true
  vulnerabilities, is not among the sources. The spec says that the classifier returns
  the verdict of the first check that fires and that, if none fires, the finding is a
  true vulnerability; that a classification result is either a false positive or a true
  vulnerability with the fields \<open>cveId\<close>, \<open>dependency\<close>, \<open>severity\<close>, \<open>cvssScore\<close>,
  \<open>description\<close>, \<open>references\<close> and \<open>affectedVersions\<close>; and that the partitioner splits
  the results into the two buckets. The source hands the function the list of false
  positives; the model reads the same verdicts from \<open>analyzeVulnerability\<close>. The spec
  names no origin for \<open>affectedVersions\<close> and no recommended fix: they are left empty.
\<close>

definition toTrueVulnerability :: "finding \<Rightarrow> true_vuln" where
  "toTrueVulnerability vuln =
     \<lparr>tv_cve_id = cveId vuln, tv_dependency = dependency vuln, tv_severity = severity vuln,
      tv_cvss_score = cvssScore vuln, tv_description = description vuln,
      tv_recommended_fix = [], tv_references = references vuln,
      tv_affected_versions = []\<rparr>"

definition trueVulnerabilityFindings ::
  "string \<Rightarrow> finding list \<Rightarrow> manifest option \<Rightarrow> reach_results option \<Rightarrow> finding list" where
  "trueVulnerabilityFindings runtimePlatform vulnerabilities manifestData reachabilityResults =
     filter (\<lambda>vuln. \<not> isFalsePositive
                (analyzeVulnerability runtimePlatform vuln manifestData reachabilityResults))
       vulnerabilities"

definition extractVulnerabilities ::
  "string \<Rightarrow> finding list \<Rightarrow> manifest option \<Rightarrow> reach_results option \<Rightarrow> true_vuln list" where
  "extractVulnerabilities runtimePlatform vulnerabilities manifestData reachabilityResults =
     map toTrueVulnerability
       (trueVulnerabilityFindings runtimePlatform vulnerabilities manifestData reachabilityResults)"

text \<open>
  The body of the route \<open>POST /api/analyze\<close>, after the files are parsed: reachability,
  false positives, true vulnerabilities, output.
\<close>

definition analyze_route ::
  "string \<Rightarrow> string \<Rightarrow> finding list \<Rightarrow> manifest option \<Rightarrow> call_graph option \<Rightarrow> string
     \<Rightarrow> json_output" where
  "analyze_route runtimePlatform now vulnerabilities manifestData callGraph reportName =
     (let reachabilityResults = analyzeReachability vulnerabilities manifestData callGraph;
          falsePositives = detectFalsePositives runtimePlatform vulnerabilities manifestData
                             (Some reachabilityResults);
          trueVulnerabilities = extractVulnerabilities runtimePlatform vulnerabilities manifestData
                                  (Some reachabilityResults)
      in generateJsonOutput now falsePositives trueVulnerabilities
           (case manifestData of Some m \<Rightarrow> manifest_name m | None \<Rightarrow> [])
           reportName)"

section \<open>Notions the properties are stated with\<close>

text \<open>
  The properties below are stated with notions written down from the specification,
  not with the functions of the program; each is then proved to be what the program
  computes.
\<close>

subsection \<open>Versions\<close>

text \<open>
  Stripping a version string: the range operators \<open>^\<close>, \<open>~\<close>, \<open>>\<close>, \<open>=\<close>, \<open><\<close> that lead it are
  removed, and then the white space wherever it stands. Two version strings are
  prefix-related when one stripped string is a prefix of the other.
\<close>

fun strip_range_operators :: "string \<Rightarrow> string" where
  "strip_range_operators [] = []"
| "strip_range_operators (c # cs) =
     (if c = CHR ''^'' \<or> c = CHR ''~'' \<or> c = CHR ''>'' \<or> c = CHR ''='' \<or> c = CHR ''<''
      then strip_range_operators cs else c # cs)"

definition white_space :: "char list" where
  "white_space = [CHR 0x09, CHR 0x0A, CHR 0x0B, CHR 0x0C, CHR 0x0D, CHR '' '']"

fun strip_white_space :: "string \<Rightarrow> string" where
  "strip_white_space [] = []"
| "strip_white_space (c # cs) =
     (if c \<in> set white_space then strip_white_space cs else c # strip_white_space cs)"

definition stripped_version :: "string \<Rightarrow> string" where
  "stripped_version v = strip_white_space (strip_range_operators v)"

definition prefix_related :: "string \<Rightarrow> string \<Rightarrow> bool" where
  "prefix_related a b =
     (prefix (stripped_version a) (stripped_version b) \<or>
      prefix (stripped_version b) (stripped_version a))"

text \<open>
  The components of a version are the pieces between its dots; each is the number that
  its decimal digits write, the other characters being dropped, and 0 when it has no
  digit. They are natural numbers, read exactly.
\<close>

definition digit_of :: "char \<Rightarrow> nat option" where
  "digit_of c =
     map_of [(CHR ''0'', 0), (CHR ''1'', 1), (CHR ''2'', 2), (CHR ''3'', 3), (CHR ''4'', 4),
             (CHR ''5'', 5), (CHR ''6'', 6), (CHR ''7'', 7), (CHR ''8'', 8), (CHR ''9'', 9)] c"

fun components_from :: "nat \<Rightarrow> string \<Rightarrow> nat list" where
  "components_from n [] = [n]"
| "components_from n (c # cs) =
     (if c = CHR ''.'' then n # components_from 0 cs
      else (case digit_of c of
              Some d \<Rightarrow> components_from (10 * n + d) cs
            | None \<Rightarrow> components_from n cs))"

definition version_components :: "string \<Rightarrow> nat list" where
  "version_components v = components_from 0 v"

text \<open>
  The component-wise comparison: the first version is greater when, at the first
  position where the components differ (a missing component counting as 0), its
  component is the greater number.
\<close>

definition component_at :: "nat list \<Rightarrow> nat \<Rightarrow> nat" where
  "component_at cs k = (if k < length cs then cs ! k else 0)"

definition componentwise_greater :: "nat list \<Rightarrow> nat list \<Rightarrow> bool" where
  "componentwise_greater ps qs =
     (\<exists>k \<in> set [0 ..< max (length ps) (length qs)].
        component_at qs k < component_at ps k \<and>
        (\<forall>j \<in> set [0 ..< k]. component_at ps j = component_at qs j))"

text \<open>
  A manifest entry declares a version that does not match the reported one: it has the
  finding's normalized name, both versions are known, and they are not prefix-related.
\<close>

definition mismatching_entry :: "finding \<Rightarrow> string \<times> dep_info \<Rightarrow> bool" where
  "mismatching_entry vuln entry =
     (normalizePackageName (fst entry) =
        normalizePackageName (extractPackageName_fp (dependency vuln)) \<and>
      info_version (snd entry) \<noteq> [] \<and> reported_version vuln \<noteq> [] \<and>
      \<not> prefix_related (info_version (snd entry)) (reported_version vuln))"

text \<open>
  The whole numbers below \<open>2^53\<close> are the ones that a JavaScript number holds exactly,
  each of them.
\<close>

definition exact_components :: "string \<Rightarrow> bool" where
  "exact_components v = list_all (\<lambda>n. n < 2 ^ 53) (version_components v)"

subsection \<open>The other notions\<close>

text \<open>The weight one true vulnerability adds to the risk score.\<close>

definition risk_weight :: "true_vuln \<Rightarrow> nat" where
  "risk_weight vuln = weight_of (toUpperCase (js_or (tv_severity vuln) ''LOW''))"

text \<open>
  A reference of the dependency by the call graph. The nodes of a graph are those
  listed under \<open>nodes\<close>, or under \<open>functions\<close> when it has no \<open>nodes\<close>; its edges are those
  listed under \<open>edges\<close>, or under \<open>calls\<close>. A node is named by its \<open>name\<close>, or by its \<open>id\<close>
  when it has no name; an edge has the source \<open>from\<close>, or else \<open>source\<close>, and the target
  \<open>to\<close>, or else \<open>target\<close>. A node references the dependency when its name normalizes to
  the dependency's normalized name, an edge when the normalized name occurs in its
  normalized source or target.
\<close>

fun listed :: "'a list option \<Rightarrow> 'a list option \<Rightarrow> 'a list" where
  "listed (Some xs) other = xs"
| "listed None (Some ys) = ys"
| "listed None None = []"

definition name_of_node :: "cg_node \<Rightarrow> string" where
  "name_of_node node = (if node_name node = [] then node_id node else node_name node)"

definition source_of_edge :: "cg_edge \<Rightarrow> string" where
  "source_of_edge edge = (if edge_from edge = [] then edge_source edge else edge_from edge)"

definition target_of_edge :: "cg_edge \<Rightarrow> string" where
  "target_of_edge edge = (if edge_to edge = [] then edge_target edge else edge_to edge)"

definition normalized_dependency :: "finding \<Rightarrow> string" where
  "normalized_dependency vuln = normalizePackageName (extractPackageName_ra (dependency vuln))"

definition node_references :: "call_graph \<Rightarrow> finding \<Rightarrow> bool" where
  "node_references cg vuln =
     (\<exists>node \<in> set (listed (cg_nodes cg) (cg_functions cg)).
        normalizePackageName (name_of_node node) = normalized_dependency vuln)"

definition edge_references :: "call_graph \<Rightarrow> finding \<Rightarrow> bool" where
  "edge_references cg vuln =
     (\<exists>edge \<in> set (listed (cg_edges cg) (cg_calls cg)).
        sublist (normalized_dependency vuln) (normalizePackageName (source_of_edge edge)) \<or>
        sublist (normalized_dependency vuln) (normalizePackageName (target_of_edge edge)))"

text \<open>
  A dependency is dev-only for the classifier when its normalized name is a key of
  \<open>devDependencies\<close> and not of \<open>productionDependencies\<close>.
\<close>

definition dev_only :: "manifest \<Rightarrow> finding \<Rightarrow> bool" where
  "dev_only m vuln =
     ((\<exists>entry \<in> set (devDependencies m).
         normalizePackageName (fst entry) =
           normalizePackageName (extractPackageName_fp (dependency vuln))) \<and>
      \<not> (\<exists>entry \<in> set (productionDependencies m).
         normalizePackageName (fst entry) =
           normalizePackageName (extractPackageName_fp (dependency vuln))))"

text \<open>
  An entry matches a normalized search name when its normalized name equals it, holds
  it or is held by it.
\<close>

definition entry_matches :: "string \<Rightarrow> string \<times> dep_info \<Rightarrow> bool" where
  "entry_matches normalizedSearch entry =
     (normalizePackageName (fst entry) = normalizedSearch \<or>
      sublist normalizedSearch (normalizePackageName (fst entry)) \<or>
      sublist (normalizePackageName (fst entry)) normalizedSearch)"

text \<open>The last finding of a list with a given \<open>cveId\<close>.\<close>

definition last_with_cveId :: "finding list \<Rightarrow> string \<Rightarrow> finding option" where
  "last_with_cveId vulnerabilities c = find (\<lambda>vuln. cveId vuln = c) (rev vulnerabilities)"

text \<open>
  The value of a double as a real number, and the integer nearest to the exact
  percentage \<open>100 * a / b\<close>, which is \<open>round(100 * a / b)\<close> with a tie going up, as
  \<open>Math.round\<close> does.
\<close>

definition double_value :: "double \<Rightarrow> real" where
  "double_value x =
     (if snd x < 0 then real (fst x) / 2 ^ nat (- snd x) else real (fst x) * 2 ^ nat (snd x))"

definition nearest_percent :: "nat \<Rightarrow> nat \<Rightarrow> nat" where
  "nearest_percent a b = (200 * a + b) div (2 * b)"

section \<open>Example inputs\<close>

text \<open>
  The spec's scenario: the finding names \<open>lodash\<close> at version 1.5.0 or 4.17.15, and the
  manifest declares one production dependency \<open>lodash\<close> at a given version.
\<close>

definition lodash_finding :: "string \<Rightarrow> finding" where
  "lodash_finding v =
     \<lparr>cveId = ''CVE-2021-1111'', dependency = ''lodash'', version = v, reportedVersion = v,
      cvssScore = 7, severity = ''HIGH'', description = [], references = [], filePath = []\<rparr>"

definition lodash_manifest :: "string \<Rightarrow> manifest" where
  "lodash_manifest v =
     \<lparr>manifest_name = ''app'', manifest_type = ''npm'',
      dependencies = [(''lodash'', Info \<lparr>entry_version = v, isDev = False, isOptional = False\<rparr>)],
      productionDependencies = [(''lodash'', Ver v)],
      devDependencies = []\<rparr>"

definition critical_vuln :: true_vuln where
  "critical_vuln =
     \<lparr>tv_cve_id = ''CVE-2021-1111'', tv_dependency = ''lodash'', tv_severity = ''CRITICAL'',
      tv_cvss_score = 10, tv_description = [], tv_recommended_fix = [], tv_references = [],
      tv_affected_versions = []\<rparr>"

text \<open>
  A small npm project: \<open>express\<close> is a production dependency, \<open>jest\<close> a development
  dependency and \<open>fsevents\<close> an optional one.
\<close>

definition shop_manifest :: manifest where
  "shop_manifest =
     \<lparr>manifest_name = ''shop'', manifest_type = ''npm'',
      dependencies =
        [(''express'', Info \<lparr>entry_version = ''4.18.2'', isDev = False, isOptional = False\<rparr>),
         (''jest'', Info \<lparr>entry_version = ''29.0.0'', isDev = True, isOptional = False\<rparr>),
         (''fsevents'', Info \<lparr>entry_version = ''2.3.2'', isDev = False, isOptional = True\<rparr>)],
      productionDependencies = [(''express'', Ver ''4.18.2'')],
      devDependencies = [(''jest'', Ver ''29.0.0'')]\<rparr>"

text \<open>A finding with a given identifier, dependency, version and file path.\<close>

definition finding_of :: "string \<Rightarrow> string \<Rightarrow> string \<Rightarrow> string \<Rightarrow> finding" where
  "finding_of c dep v path =
     \<lparr>cveId = c, dependency = dep, version = v, reportedVersion = v,
      cvssScore = 9, severity = ''CRITICAL'', description = [], references = [],
      filePath = path\<rparr>"

text \<open>A call graph in which the application calls \<open>express\<close>.\<close>

definition express_graph :: call_graph where
  "express_graph =
     \<lparr>cg_nodes = Some [\<lparr>node_name = ''app'', node_id = []\<rparr>,
                       \<lparr>node_name = ''express'', node_id = []\<rparr>],
      cg_functions = None,
      cg_edges = Some [\<lparr>edge_from = ''app'', edge_source = [], edge_to = ''express'',
                        edge_target = []\<rparr>],
      cg_calls = None\<rparr>"

text \<open>A call graph that declares \<open>express\<close> as a node and has no edge.\<close>

definition declared_graph :: call_graph where
  "declared_graph =
     \<lparr>cg_nodes = None,
      cg_functions = Some [\<lparr>node_name = [], node_id = ''Express''\<rparr>],
      cg_edges = None, cg_calls = None\<rparr>"

text \<open>
  A call graph in the \<open>functions\<close>/\<open>calls\<close> shape whose only call leaves a file of
  \<open>express\<close>: the dependency stands at the source end, under \<open>source\<close>.
\<close>

definition router_graph :: call_graph where
  "router_graph =
     \<lparr>cg_nodes = None,
      cg_functions = Some [\<lparr>node_name = ''handler'', node_id = []\<rparr>],
      cg_edges = None,
      cg_calls = Some [\<lparr>edge_from = [], edge_source = ''express/lib/router'', edge_to = [],
                        edge_target = ''fs''\<rparr>]\<rparr>"

text \<open>
  A call graph that carries both shapes: its \<open>nodes\<close> are an empty array, and its one edge
  has all four keys, \<open>express\<close> under \<open>from\<close>. What stands under \<open>functions\<close>, \<open>calls\<close>, \<open>source\<close>
  and \<open>target\<close> is \<open>lodash\<close>, and is not read.
\<close>

definition outgoing_graph :: call_graph where
  "outgoing_graph =
     \<lparr>cg_nodes = Some [],
      cg_functions = Some [\<lparr>node_name = ''lodash'', node_id = []\<rparr>],
      cg_edges = Some [\<lparr>edge_from = ''express'', edge_source = ''lodash'', edge_to = ''http'',
                        edge_target = ''lodash''\<rparr>],
      cg_calls = Some [\<lparr>edge_from = ''app'', edge_source = [], edge_to = ''lodash'',
                        edge_target = []\<rparr>]\<rparr>"

text \<open>A call graph whose one node is named \<open>app\<close> and has the identifier \<open>express\<close>.\<close>

definition renamed_graph :: call_graph where
  "renamed_graph =
     \<lparr>cg_nodes = Some [\<lparr>node_name = ''app'', node_id = ''express''\<rparr>],
      cg_functions = None, cg_edges = None, cg_calls = None\<rparr>"

text \<open>A call graph whose one call enters a file of \<open>lodash\<close>, named under \<open>target\<close>.\<close>

definition library_graph :: call_graph where
  "library_graph =
     \<lparr>cg_nodes = None,
      cg_functions = Some [\<lparr>node_name = ''main'', node_id = []\<rparr>],
      cg_edges = None,
      cg_calls = Some [\<lparr>edge_from = [], edge_source = ''main'', edge_to = [],
                        edge_target = ''node_modules/lodash/merge''\<rparr>]\<rparr>"

text \<open>A finding of \<open>jest\<close> at its declared version whose description names Windows.\<close>

definition windows_finding :: finding where
  "windows_finding =
     (finding_of ''CVE-2022-2222'' ''jest'' ''29.0.0'' [])
       \<lparr>description := ''Path traversal on Windows hosts''\<rparr>"

text \<open>
  The false-positive entry of a finding of \<open>jest\<close> that the call graph \<open>declared_graph\<close> does
  not reference, when no manifest is supplied.
\<close>

definition unreferenced_entry :: fp_entry where
  "unreferenced_entry =
     \<lparr>cve_id = ''CVE-2022-2222'', fp_dependency = ''jest@29.0.0'',
      entry_reason = Some NON_REACHABLE,
      entry_details = ''Call graph analysis: no invocation path to the vulnerable component'',
      entry_confidence = HIGH,
      originalVuln = finding_of ''CVE-2022-2222'' ''jest'' ''29.0.0'' []\<rparr>"

section \<open>Version matching\<close>

text \<open>
  The program's character classes are the characters that the stripping names, and its
  \<open>cleanVersionString\<close> is that stripping on every version that is present.
\<close>

lemma is_space_white_space: "is_space c \<longleftrightarrow> c \<in> set white_space"
proof
  assume "is_space c"
  then have "of_char c \<in> {9, 10, 11, 12, 13, 32::nat}"
    by (auto simp: is_space_def code_of_def)
  then have "of_char c \<in> (of_char ` set white_space :: nat set)"
    by (simp add: white_space_def)
  then show "c \<in> set white_space"
    by (auto simp only: image_iff of_char_eq_iff)
next
  assume "c \<in> set white_space"
  then show "is_space c"
    by (auto simp: white_space_def is_space_def code_of_def)
qed

lemma is_range_op_iff:
  "is_range_op c \<longleftrightarrow> c = CHR ''^'' \<or> c = CHR ''~'' \<or> c = CHR ''>'' \<or> c = CHR ''='' \<or> c = CHR ''<''"
  by (auto simp: is_range_op_def)

lemma dropWhile_range_ops: "dropWhile is_range_op v = strip_range_operators v"
  by (induction v) (simp_all add: is_range_op_iff)

lemma filter_white_space: "filter (\<lambda>c. \<not> is_space c) v = strip_white_space v"
  by (induction v) (simp_all add: is_space_white_space)

lemma dropWhile_none: "\<forall>x \<in> set xs. \<not> P x \<Longrightarrow> dropWhile P xs = xs"
  by (cases xs) auto

lemma trim_no_space: "\<forall>c \<in> set s. \<not> is_space c \<Longrightarrow> trim s = s"
  by (simp add: trim_def dropWhile_none)

lemma cleanVersionString_stripped:
  "v \<noteq> [] \<Longrightarrow> cleanVersionString v = stripped_version v"
proof -
  assume ne: "v \<noteq> []"
  have "trim (filter (\<lambda>c. \<not> is_space c) (dropWhile is_range_op v)) =
        filter (\<lambda>c. \<not> is_space c) (dropWhile is_range_op v)"
    by (rule trim_no_space) simp
  with ne show ?thesis
    by (simp add: cleanVersionString_def stripped_version_def dropWhile_range_ops filter_white_space)
qed

lemma versionsMatch_prefix_related:
  "a \<noteq> [] \<Longrightarrow> b \<noteq> [] \<Longrightarrow> versionsMatch a b = prefix_related a b"
  by (auto simp: versionsMatch_def prefix_related_def startsWith_def Let_def cleanVersionString_stripped)

lemma versionMismatch_loop_skip:
  assumes "prefix_related (info_version info) (reported_version vuln)"
  shows "versionMismatch_loop vuln depName ((name, info) # rest) = versionMismatch_loop vuln depName rest"
proof (cases "info_version info \<noteq> [] \<and> reported_version vuln \<noteq> []")
  case True
  with assms have "versionsMatch (info_version info) (reported_version vuln)"
    by (simp add: versionsMatch_prefix_related)
  then show ?thesis
    by (simp add: Let_def)
next
  case False
  then show ?thesis
    by (auto simp: Let_def)
qed

text \<open>
  The check stops at the first entry that declares a version that does not match the
  reported one, and does not fire when there is none.
\<close>

lemma mismatching_entry_code:
  "mismatching_entry vuln (name, info) \<longleftrightarrow>
     normalizePackageName name = normalizePackageName (extractPackageName_fp (dependency vuln)) \<and>
     info_version info \<noteq> [] \<and> reported_version vuln \<noteq> [] \<and>
     \<not> versionsMatch (info_version info) (reported_version vuln)"
  by (auto simp: mismatching_entry_def versionsMatch_prefix_related)

lemma versionMismatch_loop_find:
  assumes "find (mismatching_entry vuln) deps = Some (name, info)"
  shows "isFalsePositive (versionMismatch_loop vuln (extractPackageName_fp (dependency vuln)) deps) \<and>
         fp_reason (versionMismatch_loop vuln (extractPackageName_fp (dependency vuln)) deps) = Some VERSION_MISMATCH \<and>
         fp_confidence (versionMismatch_loop vuln (extractPackageName_fp (dependency vuln)) deps) =
           (if isHigherVersion (info_version info) (reported_version vuln) then HIGH else MEDIUM)"
  using assms
proof (induction deps)
  case Nil
  then show ?case by simp
next
  case (Cons e deps)
  obtain n i where e: "e = (n, i)" by (cases e)
  show ?case
  proof (cases "mismatching_entry vuln e")
    case True
    with Cons.prems have "e = (name, info)" by simp
    with True e show ?thesis
      by (simp add: mismatching_entry_code Let_def)
  next
    case False
    with Cons.prems have "find (mismatching_entry vuln) deps = Some (name, info)" by simp
    from Cons.IH[OF this] False e show ?thesis
      by (auto simp: mismatching_entry_code Let_def)
  qed
qed

lemma versionMismatch_loop_none:
  assumes "find (mismatching_entry vuln) deps = None"
  shows "versionMismatch_loop vuln (extractPackageName_fp (dependency vuln)) deps = check_default VERSION_MISMATCH"
  using assms
proof (induction deps)
  case Nil
  then show ?case by simp
next
  case (Cons e deps)
  obtain n i where e: "e = (n, i)" by (cases e)
  from Cons.prems have a: "\<not> mismatching_entry vuln e" and b: "find (mismatching_entry vuln) deps = None"
    by (auto split: if_splits)
  from Cons.IH[OF b] a e show ?case
    by (auto simp: mismatching_entry_code Let_def)
qed

text \<open>
  C10. Version matching is prefix-tolerant in both directions. Two version strings that
  are present match exactly when, the range operators that lead them and all white space
  stripped, one is a prefix of the other; the loop of the version-mismatch check passes
  over a manifest entry whose version is so related to the reported one, whatever the
  strings are; and the check does not fire on a manifest whose entries all are.
\<close>

theorem versions_match_prefix_tolerant:
  "(a \<noteq> [] \<and> b \<noteq> [] \<longrightarrow> versionsMatch a b = prefix_related a b) \<and>
   (prefix_related (info_version info) (reported_version vuln) \<longrightarrow>
      versionMismatch_loop vuln depName ((name, info) # rest) =
        versionMismatch_loop vuln depName rest) \<and>
   ((\<forall>entry \<in> set (dependencies m).
        prefix_related (info_version (snd entry)) (reported_version vuln)) \<longrightarrow>
      \<not> isFalsePositive (checkVersionMismatch vuln (Some m)))"
proof (intro conjI impI)
  assume "a \<noteq> [] \<and> b \<noteq> []"
  then show "versionsMatch a b = prefix_related a b"
    by (simp add: versionsMatch_prefix_related)
next
  assume "prefix_related (info_version info) (reported_version vuln)"
  then show "versionMismatch_loop vuln depName ((name, info) # rest) =
      versionMismatch_loop vuln depName rest"
    by (rule versionMismatch_loop_skip)
next
  assume "\<forall>entry \<in> set (dependencies m).
      prefix_related (info_version (snd entry)) (reported_version vuln)"
  then have "find (mismatching_entry vuln) (dependencies m) = None"
    by (force simp: find_None_iff mismatching_entry_def)
  then have "checkVersionMismatch vuln (Some m) = check_default VERSION_MISMATCH"
    by (simp add: checkVersionMismatch_def versionMismatch_loop_none)
  then show "\<not> isFalsePositive (checkVersionMismatch vuln (Some m))"
    by (simp add: check_default_def)
qed

text \<open>
  The manifest version 4.17, bare and behind \<open>^\<close>, \<open>>=\<close> and a space, or \<open>~\<close>, against the reported
  version 4.17.15; the manifest version 4.18 does not match it, and the check fires.
\<close>

theorem versions_match_prefix_tolerant_witness:
  "versionsMatch ''4.17'' ''4.17.15'' \<and>
   versionsMatch ''^4.17'' ''4.17.15'' \<and>
   versionsMatch ''>= 4.17'' ''4.17.15'' \<and>
   versionsMatch ''4.17.15'' ''~4.17'' \<and>
   \<not> versionsMatch ''^4.18'' ''4.17.15'' \<and>
   stripped_version ''>= 4.17'' = ''4.17'' \<and>
   versionMismatch_loop (lodash_finding ''4.17.15'') ''lodash'' [(''lodash'', Ver ''^4.17'')] =
     check_default VERSION_MISMATCH \<and>
   \<not> isFalsePositive (checkVersionMismatch (lodash_finding ''4.17.15'')
     (Some (lodash_manifest ''4.17''))) \<and>
   \<not> isFalsePositive (checkVersionMismatch (lodash_finding ''4.17.15'')
     (Some (lodash_manifest ''>= 4.17''))) \<and>
   isFalsePositive (checkVersionMismatch (lodash_finding ''4.17.15'')
     (Some (lodash_manifest ''^4.18'')))"
proof -
  have r1: "prefix_related ''4.17'' ''4.17.15''"
    by code_simp
  have r2: "prefix_related ''^4.17'' ''4.17.15''"
    by code_simp
  have r3: "prefix_related ''>= 4.17'' ''4.17.15''"
    by code_simp
  have r4: "prefix_related ''4.17.15'' ''~4.17''"
    by code_simp
  have r5: "\<not> prefix_related ''^4.18'' ''4.17.15''"
    by code_simp
  have s: "stripped_version ''>= 4.17'' = ''4.17''"
    by code_simp
  have r6: "prefix_related (info_version (Ver ''^4.17'')) (reported_version (lodash_finding ''4.17.15''))"
    by code_simp
  have a1: "\<forall>entry \<in> set (dependencies (lodash_manifest ''4.17'')).
      prefix_related (info_version (snd entry)) (reported_version (lodash_finding ''4.17.15''))"
    by code_simp
  have a2: "\<forall>entry \<in> set (dependencies (lodash_manifest ''>= 4.17'')).
      prefix_related (info_version (snd entry)) (reported_version (lodash_finding ''4.17.15''))"
    by code_simp
  have f: "isFalsePositive (checkVersionMismatch (lodash_finding ''4.17.15'')
     (Some (lodash_manifest ''^4.18'')))"
    by code_simp
  from versions_match_prefix_tolerant[of "''4.17''" "''4.17.15''" _ _ _ _ _ "lodash_manifest ''4.17''"]
    versions_match_prefix_tolerant[of "''^4.17''" "''4.17.15''"]
    versions_match_prefix_tolerant[of "''>= 4.17''" "''4.17.15''" "Ver ''^4.17''"
      "lodash_finding ''4.17.15''" "''lodash''" "''lodash''" "[]" "lodash_manifest ''>= 4.17''"]
    versions_match_prefix_tolerant[of "''4.17.15''" "''~4.17''"]
    versions_match_prefix_tolerant[of "''^4.18''" "''4.17.15''"]
    r1 r2 r3 r4 r5 r6 s f a1 a2
  show ?thesis by simp
qed

section \<open>Version-mismatch direction\<close>

subsection \<open>Whole numbers as JavaScript numbers\<close>

lemma bits_bounds:
  "0 < n \<Longrightarrow> 2 ^ (bits n - 1) \<le> n \<and> n < 2 ^ bits n"
proof (induction n rule: bits.induct)
  case (1 n)
  then have n0: "n \<noteq> 0" by simp
  then have b: "bits n = Suc (bits (n div 2))"
    by (subst bits.simps) simp
  show ?case
  proof (cases "n div 2 = 0")
    case True
    then have "bits (n div 2) = 0" by (subst bits.simps) simp
    moreover from True n0 have "n = 1" by (simp add: div_eq_0_iff)
    ultimately show ?thesis using b by simp
  next
    case False
    then have pos: "0 < n div 2" by simp
    from "1.IH"[OF n0 pos]
    have lo: "2 ^ (bits (n div 2) - 1) \<le> n div 2" and hi: "n div 2 < 2 ^ bits (n div 2)"
      by simp_all
    have bpos: "0 < bits (n div 2)"
      using False by (subst bits.simps) simp
    then have "(2::nat) ^ bits (n div 2) = 2 * 2 ^ (bits (n div 2) - 1)"
      by (cases "bits (n div 2)") simp_all
    with lo have "2 ^ bits (n div 2) \<le> 2 * (n div 2)" by simp
    then have l: "2 ^ bits (n div 2) \<le> n" by linarith
    from hi have "n < 2 * 2 ^ bits (n div 2)" by linarith
    with l b show ?thesis by simp
  qed
qed

lemma bits_pos: "0 < n \<Longrightarrow> 0 < bits n"
  by (subst bits.simps) simp

lemma number_of_nat_exact:
  assumes "n < 2 ^ 53"
  shows "number_of_nat n = Finite n"
proof (cases "n = 0")
  case True
  then show ?thesis
    by (simp add: number_of_nat_def bits.simps)
next
  case False
  then have "(2::nat) ^ (bits n - 1) \<le> n"
    using bits_bounds[of n] by simp
  then have "(2::nat) ^ (bits n - 1) < 2 ^ 53"
    using assms by (rule le_less_trans)
  then have "bits n - 1 < 53"
    by (simp only: power_strict_increasing_iff[of 2] one_less_numeral_iff semiring_norm)
  then have "bits n \<le> 53"
    by simp
  then show ?thesis
    by (simp add: number_of_nat_def)
qed

lemma or_zero_parseInt:
  "or_zero (parseInt_digits ds) = number_of_nat (decimal_value ds)"
  by (simp add: or_zero_def parseInt_digits_def decimal_value_def number_of_nat_def bits.simps)

subsection \<open>The parts that the program reads are the components\<close>

lemma is_digit_chars: "is_digit c \<longleftrightarrow> c \<in> set ''0123456789''"
proof
  assume "is_digit c"
  then have "48 \<le> (of_char c :: nat) \<and> (of_char c :: nat) \<le> 57"
    by (simp add: is_digit_def code_of_def)
  then have "(of_char c :: nat) = 48 \<or> (of_char c :: nat) = 49 \<or> (of_char c :: nat) = 50 \<or>
      (of_char c :: nat) = 51 \<or> (of_char c :: nat) = 52 \<or> (of_char c :: nat) = 53 \<or>
      (of_char c :: nat) = 54 \<or> (of_char c :: nat) = 55 \<or> (of_char c :: nat) = 56 \<or>
      (of_char c :: nat) = 57"
    by presburger
  then have "of_char c \<in> (of_char ` set ''0123456789'' :: nat set)"
    by auto
  then show "c \<in> set ''0123456789''"
    by (auto simp only: image_iff of_char_eq_iff)
next
  assume "c \<in> set ''0123456789''"
  then show "is_digit c"
    by (auto simp: is_digit_def code_of_def)
qed

lemma digit_of_is_digit:
  "digit_of c = (if is_digit c then Some (digit_value c) else None)"
proof (cases "c \<in> set ''0123456789''")
  case True
  then show ?thesis
    by (auto simp: is_digit_chars digit_of_def digit_value_def code_of_def)
next
  case False
  then show ?thesis
    by (auto simp: is_digit_chars digit_of_def)
qed

lemma split_not_Nil: "split d s \<noteq> []"
  by (induction s) (auto split: list.splits)

lemma components_from_split:
  "components_from n v =
     (case split CHR ''.'' v of
        [] \<Rightarrow> []
      | p # ps \<Rightarrow> foldl (\<lambda>n c. 10 * n + digit_value c) n (filter is_digit p) #
                  map (\<lambda>p. decimal_value (filter is_digit p)) ps)"
proof (induction v arbitrary: n)
  case Nil
  then show ?case by simp
next
  case (Cons c cs)
  obtain p ps where sp: "split CHR ''.'' cs = p # ps"
    using split_not_Nil[of "CHR ''.''" cs] by (cases "split CHR ''.'' cs") auto
  show ?case
  proof (cases "c = CHR ''.''")
    case True
    with Cons[of 0] sp show ?thesis
      by (simp add: decimal_value_def)
  next
    case False
    with Cons sp show ?thesis
      by (simp add: digit_of_is_digit)
  qed
qed

lemma version_components_split:
  "version_components v = map (\<lambda>p. decimal_value (filter is_digit p)) (split CHR ''.'' v)"
  using split_not_Nil[of "CHR ''.''" v]
  by (cases "split CHR ''.'' v") (simp_all add: version_components_def components_from_split decimal_value_def)

lemma version_parts_components:
  "version_parts v = map number_of_nat (version_components v)"
  by (simp add: version_parts_def version_components_split or_zero_parseInt)

lemma version_parts_exact:
  "exact_components v \<Longrightarrow> version_parts v = map Finite (version_components v)"
  by (simp add: version_parts_components exact_components_def list_all_iff number_of_nat_exact)

subsection \<open>The comparison\<close>

lemma number_less_total:
  "\<not> number_less a b \<Longrightarrow> \<not> number_less b a \<Longrightarrow> a = b"
  by (cases a; cases b) auto

lemma number_less_asym:
  "number_less a b \<Longrightarrow> \<not> number_less b a"
  by (cases a; cases b) auto

lemma number_less_irrefl: "\<not> number_less a a"
  by (cases a) auto

lemma higher_from_iff:
  "higher_from ps qs i \<longleftrightarrow>
     (\<exists>k. i \<le> k \<and> k < max (length ps) (length qs) \<and> number_less (part_at qs k) (part_at ps k) \<and>
          (\<forall>j. i \<le> j \<and> j < k \<longrightarrow> part_at ps j = part_at qs j))"
proof (induction ps qs i rule: higher_from.induct)
  case (1 ps qs i)
  show ?case
  proof (cases "i < max (length ps) (length qs)")
    case False
    then show ?thesis
      by (subst higher_from.simps) auto
  next
    case inb: True
    show ?thesis
    proof (cases "number_less (part_at qs i) (part_at ps i)")
      case True
      with inb have "higher_from ps qs i"
        by (subst higher_from.simps) simp
      moreover from True inb have "\<exists>k. i \<le> k \<and> k < max (length ps) (length qs) \<and>
          number_less (part_at qs k) (part_at ps k) \<and>
          (\<forall>j. i \<le> j \<and> j < k \<longrightarrow> part_at ps j = part_at qs j)"
        by (intro exI[of _ i]) auto
      ultimately show ?thesis by blast
    next
      case notgt: False
      show ?thesis
      proof (cases "number_less (part_at ps i) (part_at qs i)")
        case True
        with inb notgt have nh: "\<not> higher_from ps qs i"
          by (subst higher_from.simps) simp
        have "\<not> (\<exists>k. i \<le> k \<and> k < max (length ps) (length qs) \<and>
          number_less (part_at qs k) (part_at ps k) \<and>
          (\<forall>j. i \<le> j \<and> j < k \<longrightarrow> part_at ps j = part_at qs j))"
        proof
          assume "\<exists>k. i \<le> k \<and> k < max (length ps) (length qs) \<and>
            number_less (part_at qs k) (part_at ps k) \<and>
            (\<forall>j. i \<le> j \<and> j < k \<longrightarrow> part_at ps j = part_at qs j)"
          then obtain k where k: "i \<le> k" "number_less (part_at qs k) (part_at ps k)"
            "\<forall>j. i \<le> j \<and> j < k \<longrightarrow> part_at ps j = part_at qs j" by blast
          show False
          proof (cases "k = i")
            case True
            with k notgt show False by simp
          next
            case False
            with k have "part_at ps i = part_at qs i" by auto
            with True show False by (simp add: number_less_irrefl)
          qed
        qed
        with nh show ?thesis by blast
      next
        case False
        with notgt have eq: "part_at ps i = part_at qs i"
          by (simp add: number_less_total)
        with inb have step: "higher_from ps qs i = higher_from ps qs (Suc i)"
          by (subst higher_from.simps) (simp add: number_less_irrefl)
        have IH: "higher_from ps qs (Suc i) \<longleftrightarrow>
           (\<exists>k. Suc i \<le> k \<and> k < max (length ps) (length qs) \<and>
              number_less (part_at qs k) (part_at ps k) \<and>
              (\<forall>j. Suc i \<le> j \<and> j < k \<longrightarrow> part_at ps j = part_at qs j))"
          using "1.IH"[OF inb notgt False] .
        have "(\<exists>k. Suc i \<le> k \<and> k < max (length ps) (length qs) \<and>
            number_less (part_at qs k) (part_at ps k) \<and>
            (\<forall>j. Suc i \<le> j \<and> j < k \<longrightarrow> part_at ps j = part_at qs j)) \<longleftrightarrow>
          (\<exists>k. i \<le> k \<and> k < max (length ps) (length qs) \<and>
            number_less (part_at qs k) (part_at ps k) \<and>
            (\<forall>j. i \<le> j \<and> j < k \<longrightarrow> part_at ps j = part_at qs j))" (is "?L \<longleftrightarrow> ?R")
        proof
          assume ?L
          then obtain k where k: "Suc i \<le> k" "k < max (length ps) (length qs)"
            "number_less (part_at qs k) (part_at ps k)"
            "\<forall>j. Suc i \<le> j \<and> j < k \<longrightarrow> part_at ps j = part_at qs j" by blast
          have "\<forall>j. i \<le> j \<and> j < k \<longrightarrow> part_at ps j = part_at qs j"
          proof (intro allI impI)
            fix j assume j: "i \<le> j \<and> j < k"
            show "part_at ps j = part_at qs j"
            proof (cases "j = i")
              case True then show ?thesis using eq by simp
            next
              case False
              with j have "Suc i \<le> j \<and> j < k" by auto
              with k(4) show ?thesis by blast
            qed
          qed
          with k show ?R by (intro exI[of _ k]) auto
        next
          assume ?R
          then obtain k where k: "i \<le> k" "k < max (length ps) (length qs)"
            "number_less (part_at qs k) (part_at ps k)"
            "\<forall>j. i \<le> j \<and> j < k \<longrightarrow> part_at ps j = part_at qs j" by blast
          from k(3) eq have "k \<noteq> i" by (auto simp: number_less_irrefl)
          with k(1) have "Suc i \<le> k" by auto
          moreover from k(4) have "\<forall>j. Suc i \<le> j \<and> j < k \<longrightarrow> part_at ps j = part_at qs j" by auto
          ultimately show ?L using k(2,3) by (intro exI[of _ k]) auto
        qed
        with step IH show ?thesis by simp
      qed
    qed
  qed
qed

lemma part_at_Finite:
  "part_at (map Finite cs) k = Finite (component_at cs k)"
  by (simp add: part_at_def component_at_def or_zero_def)

lemma higher_from_componentwise:
  "higher_from (map Finite ps) (map Finite qs) 0 = componentwise_greater ps qs"
  unfolding higher_from_iff componentwise_greater_def part_at_Finite
  by auto

lemma isHigherVersion_componentwise:
  "v1 \<noteq> [] \<Longrightarrow> v2 \<noteq> [] \<Longrightarrow> exact_components v1 \<Longrightarrow> exact_components v2 \<Longrightarrow>
   isHigherVersion v1 v2 = componentwise_greater (version_components v1) (version_components v2)"
  by (simp add: isHigherVersion_def version_parts_exact higher_from_componentwise)

subsection \<open>The direction\<close>

lemma exact_components_small:
  "list_all (\<lambda>n. n < 1000) (version_components v) \<Longrightarrow> exact_components v"
  by (auto simp: exact_components_def list_all_iff)

text \<open>
  C7, as amended. When the check meets a manifest entry of the finding's name whose
  version does not match the reported one, it fires with reason \<open>VERSION_MISMATCH\<close> at
  \<open>HIGH\<close> or \<open>MEDIUM\<close> confidence; when every component of the two versions is below \<open>2^53\<close>,
  the confidence is \<open>HIGH\<close> exactly when the manifest version is component-wise greater
  than the reported version, and \<open>MEDIUM\<close> otherwise. The entry is the first such one of
  the manifest.
\<close>

theorem version_mismatch_direction:
  assumes "find (mismatching_entry vuln) (dependencies m) = Some (name, info)"
  shows "isFalsePositive (checkVersionMismatch vuln (Some m)) \<and>
         fp_reason (checkVersionMismatch vuln (Some m)) = Some VERSION_MISMATCH \<and>
         fp_confidence (checkVersionMismatch vuln (Some m)) \<in> {HIGH, MEDIUM} \<and>
         (exact_components (info_version info) \<and> exact_components (reported_version vuln) \<longrightarrow>
            fp_confidence (checkVersionMismatch vuln (Some m)) =
              (if componentwise_greater (version_components (info_version info))
                    (version_components (reported_version vuln))
               then HIGH else MEDIUM))"
proof -
  from assms have "mismatching_entry vuln (name, info)"
    by (auto simp: find_Some_iff)
  then have ne: "info_version info \<noteq> []" "reported_version vuln \<noteq> []"
    by (simp_all add: mismatching_entry_def)
  have "exact_components (info_version info) \<and> exact_components (reported_version vuln) \<longrightarrow>
      isHigherVersion (info_version info) (reported_version vuln) =
      componentwise_greater (version_components (info_version info))
        (version_components (reported_version vuln))"
    using ne by (simp add: isHigherVersion_componentwise)
  with versionMismatch_loop_find[OF assms] show ?thesis
    by (simp add: checkVersionMismatch_def)
qed

text \<open>
  The claim as stated fails beyond \<open>2^53\<close>: the manifest version 9007199254740993 is
  greater than the reported version 9007199254740992, but \<open>parseInt\<close> reads both as the
  same number, and the confidence is \<open>MEDIUM\<close>.
\<close>

theorem version_mismatch_direction_counterexample:
  "find (mismatching_entry (lodash_finding ''9007199254740992''))
     (dependencies (lodash_manifest ''9007199254740993'')) =
     Some (''lodash'', Info \<lparr>entry_version = ''9007199254740993'', isDev = False, isOptional = False\<rparr>) \<and>
   componentwise_greater (version_components ''9007199254740993'')
     (version_components ''9007199254740992'') \<and>
   fp_confidence (checkVersionMismatch (lodash_finding ''9007199254740992'')
     (Some (lodash_manifest ''9007199254740993''))) = MEDIUM"
proof (intro conjI)
  show f: "find (mismatching_entry (lodash_finding ''9007199254740992''))
     (dependencies (lodash_manifest ''9007199254740993'')) =
     Some (''lodash'', Info \<lparr>entry_version = ''9007199254740993'', isDev = False, isOptional = False\<rparr>)"
    by code_simp
  have c1: "version_components ''9007199254740993'' = [9007199254740993]"
    by (simp add: version_components_def digit_of_def)
  have c2: "version_components ''9007199254740992'' = [9007199254740992]"
    by (simp add: version_components_def digit_of_def)
  show "componentwise_greater (version_components ''9007199254740993'')
     (version_components ''9007199254740992'')"
    by (simp add: c1 c2 componentwise_greater_def component_at_def)
  have n1: "number_of_nat 9007199254740993 = Finite 9007199254740992"
    by (simp add: number_of_nat_def round_to_double_def round_half_even_def bits.simps Let_def)
  have n2: "number_of_nat 9007199254740992 = Finite 9007199254740992"
    by (simp add: number_of_nat_def round_to_double_def round_half_even_def bits.simps Let_def)
  have r: "reported_version (lodash_finding ''9007199254740992'') = ''9007199254740992''"
    by (simp add: reported_version_def lodash_finding_def)
  have "\<not> higher_from [Finite 9007199254740992] [Finite 9007199254740992] 0"
    by (simp add: higher_from.simps part_at_def or_zero_def)
  then have h: "\<not> isHigherVersion ''9007199254740993'' ''9007199254740992''"
    by (simp add: isHigherVersion_def version_parts_components c1 c2 n1 n2)
  from versionMismatch_loop_find[OF f] h r
  show "fp_confidence (checkVersionMismatch (lodash_finding ''9007199254740992'')
     (Some (lodash_manifest ''9007199254740993''))) = MEDIUM"
    by (simp add: checkVersionMismatch_def lodash_manifest_def)
qed

text \<open>
  Manifest 2.0.0 against reported 1.5.0, and manifest 1.0.0 against reported 1.5.0. The
  components are compared as numbers (1.10.0 is greater than 1.9.0, not the reverse) and
  one by one (2.0 is greater than 1.10.5), a missing one counting as 0 (1.02.1 is greater
  than 1.2), and what is not a digit is dropped; the finding may name the archive
  \<open>lodash-1.5.0.jar\<close>.
\<close>

theorem version_mismatch_direction_witness:
  "fp_confidence (checkVersionMismatch (lodash_finding ''1.5.0'') (Some (lodash_manifest ''2.0.0''))) = HIGH \<and>
   fp_confidence (checkVersionMismatch (lodash_finding ''1.5.0'') (Some (lodash_manifest ''1.0.0''))) = MEDIUM \<and>
   fp_confidence (checkVersionMismatch (lodash_finding ''1.9.0'') (Some (lodash_manifest ''1.10.0''))) = HIGH \<and>
   fp_confidence (checkVersionMismatch (lodash_finding ''1.10.0'') (Some (lodash_manifest ''1.9.0''))) = MEDIUM \<and>
   fp_confidence (checkVersionMismatch (lodash_finding ''1.10.5'') (Some (lodash_manifest ''2.0''))) = HIGH \<and>
   fp_confidence (checkVersionMismatch (lodash_finding ''1.2'') (Some (lodash_manifest ''1.02.1''))) = HIGH \<and>
   fp_confidence (checkVersionMismatch (lodash_finding ''1.5.0'') (Some (lodash_manifest ''^2.0.0''))) = HIGH \<and>
   isFalsePositive (checkVersionMismatch (lodash_finding ''1.5.0'') (Some (lodash_manifest ''2.0.0''))) \<and>
   isFalsePositive (checkVersionMismatch (lodash_finding ''1.5.0'') (Some (lodash_manifest ''1.0.0''))) \<and>
   fp_confidence (checkVersionMismatch (finding_of ''CVE-2021-1111'' ''lodash-1.5.0.jar'' ''1.5.0'' []) (Some (lodash_manifest ''2.0.0''))) = HIGH \<and>
   version_components ''1.10.5'' = [1, 10, 5] \<and>
   version_components ''2.0.0-beta.1'' = [2, 0, 0, 1]"
proof -
  have s: "list_all (\<lambda>n. n < 1000) (version_components ''1.0.0'')"
      "list_all (\<lambda>n. n < 1000) (version_components ''1.02.1'')"
      "list_all (\<lambda>n. n < 1000) (version_components ''1.10.0'')"
      "list_all (\<lambda>n. n < 1000) (version_components ''1.10.5'')"
      "list_all (\<lambda>n. n < 1000) (version_components ''1.2'')"
      "list_all (\<lambda>n. n < 1000) (version_components ''1.5.0'')"
      "list_all (\<lambda>n. n < 1000) (version_components ''1.9.0'')"
      "list_all (\<lambda>n. n < 1000) (version_components ''2.0'')"
      "list_all (\<lambda>n. n < 1000) (version_components ''2.0.0'')"
      "list_all (\<lambda>n. n < 1000) (version_components ''^2.0.0'')"
    by code_simp+
  have e: "exact_components ''1.0.0''"
      "exact_components ''1.02.1''"
      "exact_components ''1.10.0''"
      "exact_components ''1.10.5''"
      "exact_components ''1.2''"
      "exact_components ''1.5.0''"
      "exact_components ''1.9.0''"
      "exact_components ''2.0''"
      "exact_components ''2.0.0''"
      "exact_components ''^2.0.0''"
    using s by (simp_all add: exact_components_small)
  have r: "reported_version (lodash_finding ''1.10.0'') = ''1.10.0''"
      "reported_version (lodash_finding ''1.10.5'') = ''1.10.5''"
      "reported_version (lodash_finding ''1.2'') = ''1.2''"
      "reported_version (lodash_finding ''1.5.0'') = ''1.5.0''"
      "reported_version (lodash_finding ''1.9.0'') = ''1.9.0''"
      "reported_version (finding_of ''CVE-2021-1111'' ''lodash-1.5.0.jar'' ''1.5.0'' []) = ''1.5.0''"
    by code_simp+
  have f1: "find (mismatching_entry (lodash_finding ''1.5.0'')) (dependencies (lodash_manifest ''2.0.0'')) =
      Some (''lodash'', Info \<lparr>entry_version = ''2.0.0'', isDev = False, isOptional = False\<rparr>)"
    by code_simp
  have g1: "componentwise_greater (version_components ''2.0.0'') (version_components ''1.5.0'')"
    by code_simp
  have w1: "fp_confidence (checkVersionMismatch (lodash_finding ''1.5.0'') (Some (lodash_manifest ''2.0.0''))) = HIGH"
    using version_mismatch_direction[OF f1] e r g1 by simp
  have f2: "find (mismatching_entry (lodash_finding ''1.5.0'')) (dependencies (lodash_manifest ''1.0.0'')) =
      Some (''lodash'', Info \<lparr>entry_version = ''1.0.0'', isDev = False, isOptional = False\<rparr>)"
    by code_simp
  have g2: "\<not> componentwise_greater (version_components ''1.0.0'') (version_components ''1.5.0'')"
    by code_simp
  have w2: "fp_confidence (checkVersionMismatch (lodash_finding ''1.5.0'') (Some (lodash_manifest ''1.0.0''))) = MEDIUM"
    using version_mismatch_direction[OF f2] e r g2 by simp
  have f3: "find (mismatching_entry (lodash_finding ''1.9.0'')) (dependencies (lodash_manifest ''1.10.0'')) =
      Some (''lodash'', Info \<lparr>entry_version = ''1.10.0'', isDev = False, isOptional = False\<rparr>)"
    by code_simp
  have g3: "componentwise_greater (version_components ''1.10.0'') (version_components ''1.9.0'')"
    by code_simp
  have w3: "fp_confidence (checkVersionMismatch (lodash_finding ''1.9.0'') (Some (lodash_manifest ''1.10.0''))) = HIGH"
    using version_mismatch_direction[OF f3] e r g3 by simp
  have f4: "find (mismatching_entry (lodash_finding ''1.10.0'')) (dependencies (lodash_manifest ''1.9.0'')) =
      Some (''lodash'', Info \<lparr>entry_version = ''1.9.0'', isDev = False, isOptional = False\<rparr>)"
    by code_simp
  have g4: "\<not> componentwise_greater (version_components ''1.9.0'') (version_components ''1.10.0'')"
    by code_simp
  have w4: "fp_confidence (checkVersionMismatch (lodash_finding ''1.10.0'') (Some (lodash_manifest ''1.9.0''))) = MEDIUM"
    using version_mismatch_direction[OF f4] e r g4 by simp
  have f5: "find (mismatching_entry (lodash_finding ''1.10.5'')) (dependencies (lodash_manifest ''2.0'')) =
      Some (''lodash'', Info \<lparr>entry_version = ''2.0'', isDev = False, isOptional = False\<rparr>)"
    by code_simp
  have g5: "componentwise_greater (version_components ''2.0'') (version_components ''1.10.5'')"
    by code_simp
  have w5: "fp_confidence (checkVersionMismatch (lodash_finding ''1.10.5'') (Some (lodash_manifest ''2.0''))) = HIGH"
    using version_mismatch_direction[OF f5] e r g5 by simp
  have f6: "find (mismatching_entry (lodash_finding ''1.2'')) (dependencies (lodash_manifest ''1.02.1'')) =
      Some (''lodash'', Info \<lparr>entry_version = ''1.02.1'', isDev = False, isOptional = False\<rparr>)"
    by code_simp
  have g6: "componentwise_greater (version_components ''1.02.1'') (version_components ''1.2'')"
    by code_simp
  have w6: "fp_confidence (checkVersionMismatch (lodash_finding ''1.2'') (Some (lodash_manifest ''1.02.1''))) = HIGH"
    using version_mismatch_direction[OF f6] e r g6 by simp
  have f7: "find (mismatching_entry (lodash_finding ''1.5.0'')) (dependencies (lodash_manifest ''^2.0.0'')) =
      Some (''lodash'', Info \<lparr>entry_version = ''^2.0.0'', isDev = False, isOptional = False\<rparr>)"
    by code_simp
  have g7: "componentwise_greater (version_components ''^2.0.0'') (version_components ''1.5.0'')"
    by code_simp
  have w7: "fp_confidence (checkVersionMismatch (lodash_finding ''1.5.0'') (Some (lodash_manifest ''^2.0.0''))) = HIGH"
    using version_mismatch_direction[OF f7] e r g7 by simp
  have f8: "find (mismatching_entry (finding_of ''CVE-2021-1111'' ''lodash-1.5.0.jar'' ''1.5.0'' [])) (dependencies (lodash_manifest ''2.0.0'')) =
      Some (''lodash'', Info \<lparr>entry_version = ''2.0.0'', isDev = False, isOptional = False\<rparr>)"
    by code_simp
  have w8: "fp_confidence (checkVersionMismatch (finding_of ''CVE-2021-1111'' ''lodash-1.5.0.jar'' ''1.5.0'' []) (Some (lodash_manifest ''2.0.0''))) = HIGH"
    using version_mismatch_direction[OF f8] e r g1 by simp
  have i1: "isFalsePositive (checkVersionMismatch (lodash_finding ''1.5.0'') (Some (lodash_manifest ''2.0.0'')))"
    using version_mismatch_direction[OF f1] by simp
  have i2: "isFalsePositive (checkVersionMismatch (lodash_finding ''1.5.0'') (Some (lodash_manifest ''1.0.0'')))"
    using version_mismatch_direction[OF f2] by simp
  have c1: "version_components ''1.10.5'' = [1, 10, 5]"
    by code_simp
  have c2: "version_components ''2.0.0-beta.1'' = [2, 0, 0, 1]"
    by code_simp
  from w1 w2 w3 w4 w5 w6 w7 w8 i1 i2 c1 c2 show ?thesis
    by blast
qed

section \<open>Risk score\<close>

lemma riskScore_loop_sum:
  "riskScore_loop score vs = score + sum_list (map risk_weight vs)"
  by (induction vs arbitrary: score) (simp_all add: risk_weight_def)

lemma risk_weight_CRITICAL: "tv_severity v = ''CRITICAL'' \<Longrightarrow> risk_weight v = 25"
  by (simp add: risk_weight_def js_or_def) code_simp

lemma risk_weight_HIGH: "tv_severity v = ''HIGH'' \<Longrightarrow> risk_weight v = 15"
  by (simp add: risk_weight_def js_or_def) code_simp

lemma risk_weight_MEDIUM: "tv_severity v = ''MEDIUM'' \<Longrightarrow> risk_weight v = 5"
  by (simp add: risk_weight_def js_or_def) code_simp

lemma risk_weight_LOW: "tv_severity v = ''LOW'' \<Longrightarrow> risk_weight v = 1"
  by (simp add: risk_weight_def js_or_def) code_simp

lemma toUpperCase_LOW: "toUpperCase ''LOW'' = ''LOW''"
  by code_simp

lemma risk_weight_other:
  "toUpperCase (tv_severity v) \<notin> {''CRITICAL'', ''HIGH'', ''MEDIUM'', ''LOW''} \<Longrightarrow> risk_weight v = 1"
  by (simp add: risk_weight_def js_or_def weight_of_def toUpperCase_LOW)

lemma sum_critical:
  "list_all (\<lambda>v. tv_severity v = ''CRITICAL'') vs \<Longrightarrow> sum_list (map risk_weight vs) = 25 * length vs"
  by (induction vs) (simp_all add: risk_weight_CRITICAL)

lemma summary_risk_score:
  "risk_score (generateSummary fps vs) = min 100 (sum_list (map risk_weight vs))"
  by (cases vs) (simp_all add: generateSummary_def Let_def calculateRiskScore_def riskScore_loop_sum)

text \<open>
  C8. The risk score, also as the summary holds it, is the sum of the weights of the
  true vulnerabilities, capped at 100. The weight is 25 for \<open>CRITICAL\<close>, 15 for \<open>HIGH\<close>, 5 for \<open>MEDIUM\<close>, 1 for \<open>LOW\<close> and 1 for
  a severity that is none of the four names (read without regard to case) or is
  missing. Five \<open>CRITICAL\<close> vulnerabilities score 100, and the empty list scores 0.
\<close>

theorem risk_score_capped_sum:
  "calculateRiskScore vs = min 100 (sum_list (map risk_weight vs)) \<and>
   (tv_severity v = ''CRITICAL'' \<longrightarrow> risk_weight v = 25) \<and>
   (tv_severity v = ''HIGH'' \<longrightarrow> risk_weight v = 15) \<and>
   (tv_severity v = ''MEDIUM'' \<longrightarrow> risk_weight v = 5) \<and>
   (tv_severity v = ''LOW'' \<longrightarrow> risk_weight v = 1) \<and>
   (toUpperCase (tv_severity v) \<notin> {''CRITICAL'', ''HIGH'', ''MEDIUM'', ''LOW''} \<longrightarrow> risk_weight v = 1) \<and>
   (list_all (\<lambda>v. tv_severity v = ''CRITICAL'') vs \<and> length vs = 5 \<longrightarrow> calculateRiskScore vs = 100) \<and>
   calculateRiskScore [] = 0 \<and>
   risk_score (generateSummary fps vs) = calculateRiskScore vs"
proof -
  have capped: "calculateRiskScore vs = min 100 (sum_list (map risk_weight vs))"
    by (cases vs) (simp_all add: calculateRiskScore_def riskScore_loop_sum)
  have five: "list_all (\<lambda>v. tv_severity v = ''CRITICAL'') vs \<and> length vs = 5 \<longrightarrow> calculateRiskScore vs = 100"
    using capped by (auto simp: sum_critical)
  have empty: "calculateRiskScore [] = 0"
    by (simp add: calculateRiskScore_def)
  have summ: "risk_score (generateSummary fps vs) = calculateRiskScore vs"
    using capped by (simp add: summary_risk_score)
  from capped five empty summ show ?thesis
    by (simp add: risk_weight_CRITICAL risk_weight_HIGH risk_weight_MEDIUM risk_weight_LOW
        risk_weight_other)
qed

theorem risk_score_capped_sum_witness:
  "calculateRiskScore [critical_vuln, critical_vuln, critical_vuln, critical_vuln, critical_vuln] = 100 \<and>
   sum_list (map risk_weight [critical_vuln, critical_vuln, critical_vuln, critical_vuln, critical_vuln]) = 125 \<and>
   risk_weight critical_vuln = 25"
proof -
  have sev: "tv_severity critical_vuln = ''CRITICAL''"
    by (simp add: critical_vuln_def)
  from risk_score_capped_sum[of "[critical_vuln, critical_vuln, critical_vuln, critical_vuln, critical_vuln]" critical_vuln] sev
  show ?thesis by simp
qed

section \<open>Call-graph evidence\<close>

text \<open>
  What the assessor reads off the graph is what the graph lists, and its two tests are
  the references by a node and by an edge.
\<close>

lemma listed_nodes: "graph_nodes cg = listed (cg_nodes cg) (cg_functions cg)"
  by (cases "cg_nodes cg"; cases "cg_functions cg") (simp_all add: graph_nodes_def)

lemma listed_edges: "graph_edges cg = listed (cg_edges cg) (cg_calls cg)"
  by (cases "cg_edges cg"; cases "cg_calls cg") (simp_all add: graph_edges_def)

lemma node_label_name: "node_label node = name_of_node node"
  by (simp add: node_label_def name_of_node_def js_or_def)

lemma edge_start_source: "edge_start edge = source_of_edge edge"
  by (simp add: edge_start_def source_of_edge_def js_or_def)

lemma edge_end_target: "edge_end edge = target_of_edge edge"
  by (simp add: edge_end_def target_of_edge_def js_or_def)

lemma referenced_by_node:
  "list_ex (\<lambda>node. normalizePackageName (node_label node) =
       normalizePackageName (extractPackageName_ra (dependency vuln))) (graph_nodes cg)
   = node_references cg vuln"
  by (simp add: node_references_def normalized_dependency_def list_ex_iff listed_nodes
      node_label_name)

lemma referenced_by_edge:
  "list_ex (\<lambda>edge.
       includes_str (normalizePackageName (edge_start edge))
         (normalizePackageName (extractPackageName_ra (dependency vuln))) \<or>
       includes_str (normalizePackageName (edge_end edge))
         (normalizePackageName (extractPackageName_ra (dependency vuln)))) (graph_edges cg)
   = edge_references cg vuln"
  by (simp add: edge_references_def normalized_dependency_def list_ex_iff listed_edges
      includes_str_def edge_start_source edge_end_target)

text \<open>
  C6. For a supplied call graph the assessor returns a result; it is unreachable at
  \<open>HIGH\<close> confidence if and only if no node's name normalizes to the dependency's
  normalized name and no edge's source or target holds it; otherwise it is reachable,
  at \<open>HIGH\<close> confidence when some edge references the dependency and at \<open>MEDIUM\<close> when only
  a node does.
\<close>

theorem call_graph_evidence_mapping:
  "\<exists>r. assessCallGraphReachability vuln (Some cg) = Some r \<and>
       ((\<not> cg_isReachable r \<and> cg_confidence r = HIGH) \<longleftrightarrow>
          (\<not> node_references cg vuln \<and> \<not> edge_references cg vuln)) \<and>
       (node_references cg vuln \<or> edge_references cg vuln \<longrightarrow>
          cg_isReachable r \<and>
          cg_confidence r = (if edge_references cg vuln then HIGH else MEDIUM))"
  by (simp add: assessCallGraphReachability_def Let_def referenced_by_node referenced_by_edge)

text \<open>
  \<open>express\<close> is declared by a node only (under \<open>id\<close>, in capitals), called by an edge (under
  \<open>to\<close>), the source of a call (under \<open>source\<close>, inside a path) and the source of an edge
  (under \<open>from\<close>); \<open>lodash\<close> stands only where the graph is not read; the identifier
  \<open>express\<close> of a node named \<open>app\<close> is not read; the archive \<open>lodash-4.17.21.jar\<close> is
  referenced under \<open>target\<close>; and \<open>jest\<close> is not referenced at all.
\<close>

theorem call_graph_evidence_mapping_witness:
  "map_option (\<lambda>r. (cg_isReachable r, cg_confidence r)) (assessCallGraphReachability
      (finding_of ''CVE-2022-3333'' ''express'' ''4.18.2'' []) (Some declared_graph)) = Some (True, MEDIUM) \<and>
   map_option (\<lambda>r. (cg_isReachable r, cg_confidence r)) (assessCallGraphReachability
      (finding_of ''CVE-2022-3333'' ''express'' ''4.18.2'' []) (Some express_graph)) = Some (True, HIGH) \<and>
   map_option (\<lambda>r. (cg_isReachable r, cg_confidence r)) (assessCallGraphReachability
      (finding_of ''CVE-2022-3333'' ''express'' ''4.18.2'' []) (Some router_graph)) = Some (True, HIGH) \<and>
   map_option (\<lambda>r. (cg_isReachable r, cg_confidence r)) (assessCallGraphReachability
      (finding_of ''CVE-2022-3333'' ''express'' ''4.18.2'' []) (Some outgoing_graph)) = Some (True, HIGH) \<and>
   map_option (\<lambda>r. (cg_isReachable r, cg_confidence r)) (assessCallGraphReachability
      (finding_of ''CVE-2021-1111'' ''lodash'' ''4.17.21'' []) (Some outgoing_graph)) = Some (False, HIGH) \<and>
   map_option (\<lambda>r. (cg_isReachable r, cg_confidence r)) (assessCallGraphReachability
      (finding_of ''CVE-2022-3333'' ''express'' ''4.18.2'' []) (Some renamed_graph)) = Some (False, HIGH) \<and>
   map_option (\<lambda>r. (cg_isReachable r, cg_confidence r)) (assessCallGraphReachability
      (finding_of ''CVE-2021-1111'' ''lodash-4.17.21.jar'' ''4.17.21'' []) (Some library_graph)) = Some (True, HIGH) \<and>
   map_option (\<lambda>r. (cg_isReachable r, cg_confidence r)) (assessCallGraphReachability
      (finding_of ''CVE-2022-2222'' ''jest'' ''29.0.0'' []) (Some express_graph)) = Some (False, HIGH)"
proof -
  have n: "node_references declared_graph (finding_of ''CVE-2022-3333'' ''express'' ''4.18.2'' [])"
      "node_references express_graph (finding_of ''CVE-2022-3333'' ''express'' ''4.18.2'' [])"
      "\<not> node_references router_graph (finding_of ''CVE-2022-3333'' ''express'' ''4.18.2'' [])"
      "\<not> node_references outgoing_graph (finding_of ''CVE-2022-3333'' ''express'' ''4.18.2'' [])"
      "\<not> node_references outgoing_graph (finding_of ''CVE-2021-1111'' ''lodash'' ''4.17.21'' [])"
      "\<not> node_references renamed_graph (finding_of ''CVE-2022-3333'' ''express'' ''4.18.2'' [])"
      "\<not> node_references library_graph (finding_of ''CVE-2021-1111'' ''lodash-4.17.21.jar'' ''4.17.21'' [])"
      "\<not> node_references express_graph (finding_of ''CVE-2022-2222'' ''jest'' ''29.0.0'' [])"
    by code_simp+
  have e: "\<not> edge_references declared_graph (finding_of ''CVE-2022-3333'' ''express'' ''4.18.2'' [])"
      "edge_references express_graph (finding_of ''CVE-2022-3333'' ''express'' ''4.18.2'' [])"
      "edge_references router_graph (finding_of ''CVE-2022-3333'' ''express'' ''4.18.2'' [])"
      "edge_references outgoing_graph (finding_of ''CVE-2022-3333'' ''express'' ''4.18.2'' [])"
      "\<not> edge_references outgoing_graph (finding_of ''CVE-2021-1111'' ''lodash'' ''4.17.21'' [])"
      "\<not> edge_references renamed_graph (finding_of ''CVE-2022-3333'' ''express'' ''4.18.2'' [])"
      "edge_references library_graph (finding_of ''CVE-2021-1111'' ''lodash-4.17.21.jar'' ''4.17.21'' [])"
      "\<not> edge_references express_graph (finding_of ''CVE-2022-2222'' ''jest'' ''29.0.0'' [])"
    by code_simp+
  have w1: "map_option (\<lambda>r. (cg_isReachable r, cg_confidence r)) (assessCallGraphReachability
      (finding_of ''CVE-2022-3333'' ''express'' ''4.18.2'' []) (Some declared_graph)) = Some (True, MEDIUM)"
    using call_graph_evidence_mapping[of "finding_of ''CVE-2022-3333'' ''express'' ''4.18.2'' []" declared_graph]
      n e by auto
  have w2: "map_option (\<lambda>r. (cg_isReachable r, cg_confidence r)) (assessCallGraphReachability
      (finding_of ''CVE-2022-3333'' ''express'' ''4.18.2'' []) (Some express_graph)) = Some (True, HIGH)"
    using call_graph_evidence_mapping[of "finding_of ''CVE-2022-3333'' ''express'' ''4.18.2'' []" express_graph]
      n e by auto
  have w3: "map_option (\<lambda>r. (cg_isReachable r, cg_confidence r)) (assessCallGraphReachability
      (finding_of ''CVE-2022-3333'' ''express'' ''4.18.2'' []) (Some router_graph)) = Some (True, HIGH)"
    using call_graph_evidence_mapping[of "finding_of ''CVE-2022-3333'' ''express'' ''4.18.2'' []" router_graph]
      n e by auto
  have w4: "map_option (\<lambda>r. (cg_isReachable r, cg_confidence r)) (assessCallGraphReachability
      (finding_of ''CVE-2022-3333'' ''express'' ''4.18.2'' []) (Some outgoing_graph)) = Some (True, HIGH)"
    using call_graph_evidence_mapping[of "finding_of ''CVE-2022-3333'' ''express'' ''4.18.2'' []" outgoing_graph]
      n e by auto
  have w5: "map_option (\<lambda>r. (cg_isReachable r, cg_confidence r)) (assessCallGraphReachability
      (finding_of ''CVE-2021-1111'' ''lodash'' ''4.17.21'' []) (Some outgoing_graph)) = Some (False, HIGH)"
    using call_graph_evidence_mapping[of "finding_of ''CVE-2021-1111'' ''lodash'' ''4.17.21'' []" outgoing_graph]
      n e by auto
  have w6: "map_option (\<lambda>r. (cg_isReachable r, cg_confidence r)) (assessCallGraphReachability
      (finding_of ''CVE-2022-3333'' ''express'' ''4.18.2'' []) (Some renamed_graph)) = Some (False, HIGH)"
    using call_graph_evidence_mapping[of "finding_of ''CVE-2022-3333'' ''express'' ''4.18.2'' []" renamed_graph]
      n e by auto
  have w7: "map_option (\<lambda>r. (cg_isReachable r, cg_confidence r)) (assessCallGraphReachability
      (finding_of ''CVE-2021-1111'' ''lodash-4.17.21.jar'' ''4.17.21'' []) (Some library_graph)) = Some (True, HIGH)"
    using call_graph_evidence_mapping[of "finding_of ''CVE-2021-1111'' ''lodash-4.17.21.jar'' ''4.17.21'' []" library_graph]
      n e by auto
  have w8: "map_option (\<lambda>r. (cg_isReachable r, cg_confidence r)) (assessCallGraphReachability
      (finding_of ''CVE-2022-2222'' ''jest'' ''29.0.0'' []) (Some express_graph)) = Some (False, HIGH)"
    using call_graph_evidence_mapping[of "finding_of ''CVE-2022-2222'' ''jest'' ''29.0.0'' []" express_graph]
      n e by auto
  from w1 w2 w3 w4 w5 w6 w7 w8 show ?thesis
    by (intro conjI)
qed

section \<open>Partition completeness\<close>

lemma detect_loop_original:
  "map originalVuln (detect_loop p m rr vs) =
     filter (\<lambda>v. isFalsePositive (analyzeVulnerability p v m rr)) vs"
  by (induction vs) (simp_all add: Let_def)

lemma length_partition:
  "length (filter P xs) + length (filter (\<lambda>x. \<not> P x) xs) = length xs"
  by (induction xs) simp_all

lemma buckets_lengths:
  "length (detectFalsePositives p vs m rr) + length (extractVulnerabilities p vs m rr) = length vs"
proof -
  have "length (detectFalsePositives p vs m rr) =
      length (filter (\<lambda>v. isFalsePositive (analyzeVulnerability p v m rr)) vs)"
    using detect_loop_original[of p m rr vs]
    by (metis detectFalsePositives_def length_map)
  then show ?thesis
    by (simp add: extractVulnerabilities_def trueVulnerabilityFindings_def length_partition)
qed

lemma buckets_exclusive:
  assumes "v \<in> set vs"
  shows "(v \<in> originalVuln ` set (detectFalsePositives p vs m rr)) \<noteq>
         (v \<in> set (trueVulnerabilityFindings p vs m rr))"
proof -
  have "originalVuln ` set (detectFalsePositives p vs m rr) =
      set (filter (\<lambda>v. isFalsePositive (analyzeVulnerability p v m rr)) vs)"
    using detect_loop_original[of p m rr vs]
    by (metis detectFalsePositives_def set_map)
  with assms show ?thesis
    by (auto simp: trueVulnerabilityFindings_def)
qed

text \<open>
  C1. The two buckets partition the findings: the numbers of false positives and of true
  vulnerabilities add up to the number of findings, in the lists and in the produced
  output, where it is also \<open>metadata.total_vulnerabilities_scanned\<close>; and every finding
  is the origin of a false positive or is among the true vulnerabilities, never both
  and never neither. This holds with or without a manifest or a call graph.
\<close>

theorem partition_completeness:
  "length (detectFalsePositives p vs m (Some (analyzeReachability vs m cg))) +
     length (extractVulnerabilities p vs m (Some (analyzeReachability vs m cg))) = length vs \<and>
   length (false_positives (analyze_route p now vs m cg reportName)) +
     length (true_vulnerabilities (analyze_route p now vs m cg reportName)) = length vs \<and>
   total_vulnerabilities_scanned (metadata (analyze_route p now vs m cg reportName)) = length vs \<and>
   (\<forall>v \<in> set vs.
      (v \<in> originalVuln ` set (detectFalsePositives p vs m (Some (analyzeReachability vs m cg)))) \<noteq>
      (v \<in> set (trueVulnerabilityFindings p vs m (Some (analyzeReachability vs m cg)))))"
  by (simp add: analyze_route_def generateJsonOutput_def Let_def formatFalsePositives_def
      formatTrueVulnerabilities_def buckets_lengths buckets_exclusive)

text \<open>Two findings against the small project: one is a false positive, one is not.\<close>

theorem partition_completeness_witness:
  "length (false_positives (analyze_route ''linux'' ''2024-01-01T00:00:00.000Z''
       [finding_of ''CVE-2022-3333'' ''express'' ''4.18.2'' [], finding_of ''CVE-2022-2222'' ''jest'' ''29.0.0'' []]
       (Some shop_manifest) None ''report.json'')) +
   length (true_vulnerabilities (analyze_route ''linux'' ''2024-01-01T00:00:00.000Z''
       [finding_of ''CVE-2022-3333'' ''express'' ''4.18.2'' [], finding_of ''CVE-2022-2222'' ''jest'' ''29.0.0'' []]
       (Some shop_manifest) None ''report.json'')) = 2 \<and>
   total_vulnerabilities_scanned (metadata (analyze_route ''linux'' ''2024-01-01T00:00:00.000Z''
       [finding_of ''CVE-2022-3333'' ''express'' ''4.18.2'' [], finding_of ''CVE-2022-2222'' ''jest'' ''29.0.0'' []]
       (Some shop_manifest) None ''report.json'')) = 2 \<and>
   finding_of ''CVE-2022-2222'' ''jest'' ''29.0.0'' [] \<notin> set (trueVulnerabilityFindings ''linux''
       [finding_of ''CVE-2022-3333'' ''express'' ''4.18.2'' [], finding_of ''CVE-2022-2222'' ''jest'' ''29.0.0'' []]
       (Some shop_manifest)
       (Some (analyzeReachability
          [finding_of ''CVE-2022-3333'' ''express'' ''4.18.2'' [], finding_of ''CVE-2022-2222'' ''jest'' ''29.0.0'' []]
          (Some shop_manifest) None)))"
proof -
  let ?vs = "[finding_of ''CVE-2022-3333'' ''express'' ''4.18.2'' [], finding_of ''CVE-2022-2222'' ''jest'' ''29.0.0'' []]"
  have mem: "finding_of ''CVE-2022-2222'' ''jest'' ''29.0.0'' [] \<in> set ?vs"
    by simp
  have fp: "finding_of ''CVE-2022-2222'' ''jest'' ''29.0.0'' [] \<in>
      originalVuln ` set (detectFalsePositives ''linux'' ?vs (Some shop_manifest)
        (Some (analyzeReachability ?vs (Some shop_manifest) None)))"
    by code_simp
  from partition_completeness[of "''linux''" ?vs "Some shop_manifest" None
      "''2024-01-01T00:00:00.000Z''" "''report.json''"] mem fp
  show ?thesis by auto
qed

section \<open>Dev-only dependencies\<close>

lemma versionMismatch_loop_reason:
  "fp_reason (versionMismatch_loop vuln depName deps) = Some VERSION_MISMATCH"
  by (induction deps) (auto simp: check_default_def Let_def)

lemma checkVersionMismatch_reason:
  "fp_reason (checkVersionMismatch vuln m) = Some VERSION_MISMATCH"
  by (cases m) (simp_all add: checkVersionMismatch_def check_default_def versionMismatch_loop_reason)

lemma envSignal_loop_reason:
  "envSignal_loop d p sigs = Some r \<Longrightarrow> fp_reason r = Some ENV_MISMATCH"
  by (induction sigs) (auto split: if_splits)

lemma checkEnvironmentMismatch_reason:
  "fp_reason (checkEnvironmentMismatch p vuln m) = Some ENV_MISMATCH"
  by (auto simp: checkEnvironmentMismatch_def Let_def check_default_def
      dest: envSignal_loop_reason split: option.splits)

lemma has_normalized_key_iff:
  "has_normalized_key deps depName \<longleftrightarrow>
     (\<exists>entry \<in> set deps. normalizePackageName (fst entry) = normalizePackageName depName)"
  by (simp add: has_normalized_key_def list_ex_iff)

lemma checkDevOnly_fires:
  assumes "dev_only m vuln"
  shows "isFalsePositive (checkDevOnlyDependency vuln (Some m) rr) \<and>
         fp_reason (checkDevOnlyDependency vuln (Some m) rr) = Some DEV_ONLY \<and>
         fp_confidence (checkDevOnlyDependency vuln (Some m) rr) = HIGH"
  using assms
  by (simp add: checkDevOnlyDependency_def dev_only_def Let_def has_normalized_key_iff)

text \<open>
  C2, as amended. A finding whose dependency is a key of \<open>devDependencies\<close> and not of
  \<open>productionDependencies\<close> is always a false positive, whatever its severity and
  whatever the reachability records say. The verdict is that of the version check, with
  reason \<open>VERSION_MISMATCH\<close>, when that check fires; otherwise that of the environment
  check, with reason \<open>ENV_MISMATCH\<close>, when that one fires; and otherwise that of the
  dev-only check, with reason \<open>DEV_ONLY\<close> at \<open>HIGH\<close> confidence.
\<close>

theorem dev_only_dominance:
  assumes "dev_only m vuln"
  shows "isFalsePositive (analyzeVulnerability p vuln (Some m) rr) \<and>
         (isFalsePositive (checkVersionMismatch vuln (Some m)) \<longrightarrow>
            analyzeVulnerability p vuln (Some m) rr = checkVersionMismatch vuln (Some m) \<and>
            fp_reason (analyzeVulnerability p vuln (Some m) rr) = Some VERSION_MISMATCH) \<and>
         (\<not> isFalsePositive (checkVersionMismatch vuln (Some m)) \<and>
          isFalsePositive (checkEnvironmentMismatch p vuln (Some m)) \<longrightarrow>
            analyzeVulnerability p vuln (Some m) rr = checkEnvironmentMismatch p vuln (Some m) \<and>
            fp_reason (analyzeVulnerability p vuln (Some m) rr) = Some ENV_MISMATCH) \<and>
         (\<not> isFalsePositive (checkVersionMismatch vuln (Some m)) \<and>
          \<not> isFalsePositive (checkEnvironmentMismatch p vuln (Some m)) \<longrightarrow>
            analyzeVulnerability p vuln (Some m) rr = checkDevOnlyDependency vuln (Some m) rr \<and>
            fp_reason (analyzeVulnerability p vuln (Some m) rr) = Some DEV_ONLY \<and>
            fp_confidence (analyzeVulnerability p vuln (Some m) rr) = HIGH)"
  using checkDevOnly_fires[OF assms, of rr]
  by (simp add: analyzeVulnerability_def Let_def checkVersionMismatch_reason
      checkEnvironmentMismatch_reason)

text \<open>
  The claim as stated fails: \<open>jest\<close> is dev-only, and a report of version 28.0.0 against
  the declared 29.0.0 is classified \<open>VERSION_MISMATCH\<close>.
\<close>

theorem dev_only_dominance_counterexample:
  "dev_only shop_manifest (finding_of ''CVE-2022-2222'' ''jest'' ''28.0.0'' []) \<and>
   fp_reason (analyzeVulnerability ''linux'' (finding_of ''CVE-2022-2222'' ''jest'' ''28.0.0'' [])
     (Some shop_manifest)
     (Some (analyzeReachability [finding_of ''CVE-2022-2222'' ''jest'' ''28.0.0'' []]
        (Some shop_manifest) None))) = Some VERSION_MISMATCH"
  by code_simp

text \<open>
  \<open>jest\<close> reported at the declared version is \<open>DEV_ONLY\<close>; reported at 28.0.0 it is
  \<open>VERSION_MISMATCH\<close>; with a description that names Windows it is \<open>ENV_MISMATCH\<close> on
  Linux and \<open>DEV_ONLY\<close> on Windows.
\<close>

theorem dev_only_dominance_witness:
  "fp_reason (analyzeVulnerability ''linux'' (finding_of ''CVE-2022-2222'' ''jest'' ''29.0.0'' [])
     (Some shop_manifest) None) = Some DEV_ONLY \<and>
   fp_confidence (analyzeVulnerability ''linux'' (finding_of ''CVE-2022-2222'' ''jest'' ''29.0.0'' [])
     (Some shop_manifest) None) = HIGH \<and>
   isFalsePositive (analyzeVulnerability ''linux'' (finding_of ''CVE-2022-2222'' ''jest'' ''29.0.0'' [])
     (Some shop_manifest) None) \<and>
   fp_reason (analyzeVulnerability ''linux'' (finding_of ''CVE-2022-2222'' ''jest'' ''28.0.0'' [])
     (Some shop_manifest) None) = Some VERSION_MISMATCH \<and>
   isFalsePositive (analyzeVulnerability ''linux'' (finding_of ''CVE-2022-2222'' ''jest'' ''28.0.0'' [])
     (Some shop_manifest) None) \<and>
   fp_reason (analyzeVulnerability ''linux'' windows_finding (Some shop_manifest) None) =
     Some ENV_MISMATCH \<and>
   isFalsePositive (analyzeVulnerability ''linux'' windows_finding (Some shop_manifest) None) \<and>
   fp_reason (analyzeVulnerability ''win32'' windows_finding (Some shop_manifest) None) =
     Some DEV_ONLY"
proof -
  have d: "dev_only shop_manifest (finding_of ''CVE-2022-2222'' ''jest'' ''29.0.0'' [])"
      "dev_only shop_manifest (finding_of ''CVE-2022-2222'' ''jest'' ''28.0.0'' [])"
      "dev_only shop_manifest windows_finding"
    by code_simp+
  have v: "\<not> isFalsePositive (checkVersionMismatch (finding_of ''CVE-2022-2222'' ''jest'' ''29.0.0'' [])
      (Some shop_manifest))"
      "isFalsePositive (checkVersionMismatch (finding_of ''CVE-2022-2222'' ''jest'' ''28.0.0'' [])
      (Some shop_manifest))"
      "\<not> isFalsePositive (checkVersionMismatch windows_finding (Some shop_manifest))"
    by code_simp+
  have e: "\<not> isFalsePositive (checkEnvironmentMismatch ''linux''
      (finding_of ''CVE-2022-2222'' ''jest'' ''29.0.0'' []) (Some shop_manifest))"
      "isFalsePositive (checkEnvironmentMismatch ''linux'' windows_finding (Some shop_manifest))"
      "\<not> isFalsePositive (checkEnvironmentMismatch ''win32'' windows_finding (Some shop_manifest))"
    by code_simp+
  have w1: "fp_reason (analyzeVulnerability ''linux'' (finding_of ''CVE-2022-2222'' ''jest'' ''29.0.0'' [])
       (Some shop_manifest) None) = Some DEV_ONLY \<and>
     fp_confidence (analyzeVulnerability ''linux'' (finding_of ''CVE-2022-2222'' ''jest'' ''29.0.0'' [])
       (Some shop_manifest) None) = HIGH \<and>
     isFalsePositive (analyzeVulnerability ''linux'' (finding_of ''CVE-2022-2222'' ''jest'' ''29.0.0'' [])
       (Some shop_manifest) None)"
    using dev_only_dominance[OF d(1), of "''linux''" None] v(1) e(1) by blast
  have w2: "fp_reason (analyzeVulnerability ''linux'' (finding_of ''CVE-2022-2222'' ''jest'' ''28.0.0'' [])
       (Some shop_manifest) None) = Some VERSION_MISMATCH \<and>
     isFalsePositive (analyzeVulnerability ''linux'' (finding_of ''CVE-2022-2222'' ''jest'' ''28.0.0'' [])
       (Some shop_manifest) None)"
    using dev_only_dominance[OF d(2), of "''linux''" None] v(2) by blast
  have w3: "fp_reason (analyzeVulnerability ''linux'' windows_finding (Some shop_manifest) None) =
       Some ENV_MISMATCH \<and>
     isFalsePositive (analyzeVulnerability ''linux'' windows_finding (Some shop_manifest) None)"
    using dev_only_dominance[OF d(3), of "''linux''" None] v(3) e(2) by blast
  have w4: "fp_reason (analyzeVulnerability ''win32'' windows_finding (Some shop_manifest) None) =
       Some DEV_ONLY"
    using dev_only_dominance[OF d(3), of "''win32''" None] v(3) e(3) by blast
  from w1 w2 w3 w4 show ?thesis
    by blast
qed

section \<open>Non-production paths\<close>

text \<open>
  C3, as amended. For a finding whose path is classified \<open>non_prod\<close>: with a manifest the
  record is unreachable, even for a direct production dependency with call-graph
  evidence, and its confidence is \<open>HIGH\<close> unless the matched entry is optional and the
  dependency has no production match, which gives \<open>MEDIUM\<close>; without a manifest the
  confidence is the call graph's, and \<open>MEDIUM\<close> when there is no call graph.
\<close>

theorem non_prod_path_record:
  assumes "classifyPath (filePath vuln) = non_prod"
  shows "\<not> isReachable (record_with_manifest m cg vuln) \<and>
         confidence (record_with_manifest m cg vuln) =
           (if optional_not_prod
                 (findDependencyMatch (extractPackageName_ra (dependency vuln)) (dependencies m))
                 (findDependencyMatch (extractPackageName_ra (dependency vuln)) (productionDependencies m))
            then MEDIUM else HIGH) \<and>
         confidence (record_without_manifest cg vuln) =
           (case assessCallGraphReachability vuln cg of
              Some c \<Rightarrow> cg_confidence c
            | None \<Rightarrow> MEDIUM)"
  using assms
  by (simp add: record_with_manifest_def record_without_manifest_def Let_def
      split: option.splits)

text \<open>
  The claim as stated fails: without a manifest and without a call graph the record of
  a finding under \<open>src/test/fixtures\<close> is reachable at \<open>MEDIUM\<close> confidence, and with the
  manifest a finding of the optional \<open>fsevents\<close> there has \<open>MEDIUM\<close> confidence.
\<close>

theorem non_prod_path_counterexample:
  "classifyPath (filePath (finding_of ''CVE-2022-3333'' ''express'' ''4.18.2'' ''src/test/fixtures/vuln.js'')) = non_prod \<and>
   isReachable (reachability_record None None
     (finding_of ''CVE-2022-3333'' ''express'' ''4.18.2'' ''src/test/fixtures/vuln.js'')) \<and>
   confidence (reachability_record None None
     (finding_of ''CVE-2022-3333'' ''express'' ''4.18.2'' ''src/test/fixtures/vuln.js'')) = MEDIUM \<and>
   confidence (reachability_record (Some shop_manifest) None
     (finding_of ''CVE-2022-5555'' ''fsevents'' ''2.3.2'' ''src/test/fixtures/vuln.js'')) = MEDIUM"
  by code_simp

text \<open>A direct production dependency with call-graph evidence, in a test path.\<close>

theorem non_prod_path_record_witness:
  "\<not> isReachable (record_with_manifest shop_manifest (Some express_graph)
      (finding_of ''CVE-2022-3333'' ''express'' ''4.18.2'' ''src/test/fixtures/vuln.js'')) \<and>
   confidence (record_with_manifest shop_manifest (Some express_graph)
      (finding_of ''CVE-2022-3333'' ''express'' ''4.18.2'' ''src/test/fixtures/vuln.js'')) = HIGH \<and>
   confidence (record_without_manifest None
      (finding_of ''CVE-2022-3333'' ''express'' ''4.18.2'' ''src/test/fixtures/vuln.js'')) = MEDIUM"
proof -
  have p: "classifyPath (filePath (finding_of ''CVE-2022-3333'' ''express'' ''4.18.2'' ''src/test/fixtures/vuln.js'')) = non_prod"
    by code_simp
  have o: "\<not> optional_not_prod
      (findDependencyMatch (extractPackageName_ra (dependency
         (finding_of ''CVE-2022-3333'' ''express'' ''4.18.2'' ''src/test/fixtures/vuln.js''))) (dependencies shop_manifest))
      (findDependencyMatch (extractPackageName_ra (dependency
         (finding_of ''CVE-2022-3333'' ''express'' ''4.18.2'' ''src/test/fixtures/vuln.js''))) (productionDependencies shop_manifest))"
    by code_simp
  have c: "assessCallGraphReachability
      (finding_of ''CVE-2022-3333'' ''express'' ''4.18.2'' ''src/test/fixtures/vuln.js'') None = None"
    by code_simp
  from non_prod_path_record[OF p, of shop_manifest "Some express_graph"]
    non_prod_path_record[OF p, of shop_manifest None] o c
  show ?thesis by simp
qed

section \<open>The key of a reachability record\<close>

lemma map_foldl_with:
  "reachabilityMap (foldl (step_with_manifest m cg) res vs) c =
     (case last_with_cveId vs c of
        Some v \<Rightarrow> Some (record_with_manifest m cg v)
      | None \<Rightarrow> reachabilityMap res c)"
  by (induction vs rule: rev_induct)
     (simp_all add: last_with_cveId_def step_with_manifest_def Let_def)

lemma map_foldl_without:
  "reachabilityMap (foldl (step_without_manifest cg) res vs) c =
     (case last_with_cveId vs c of
        Some v \<Rightarrow> Some (record_without_manifest cg v)
      | None \<Rightarrow> reachabilityMap res c)"
  by (induction vs rule: rev_induct)
     (simp_all add: last_with_cveId_def step_without_manifest_def Let_def)

lemma reachabilityMap_last:
  "reachabilityMap (analyzeReachability vs m cg) c =
     map_option (reachability_record m cg) (last_with_cveId vs c)"
  by (cases m)
     (simp_all add: analyzeReachability_def reachability_record_def map_foldl_with
        map_foldl_without empty_results_def split: option.splits)

lemma last_with_cveId_distinct:
  "distinct (map cveId vs) \<Longrightarrow> v \<in> set vs \<Longrightarrow> last_with_cveId vs (cveId v) = Some v"
proof (induction vs rule: rev_induct)
  case Nil
  then show ?case by simp
next
  case (snoc x xs)
  then show ?case
    by (auto simp: last_with_cveId_def)
qed

lemma checkDevOnly_reads_own_key:
  "reachInfo_of rr vuln = reachInfo_of rr' vuln \<Longrightarrow>
   checkDevOnlyDependency vuln m rr = checkDevOnlyDependency vuln m rr'"
  by (cases m) (simp_all add: checkDevOnlyDependency_def)

lemma checkReachability_reads_own_key:
  "reachInfo_of rr vuln = reachInfo_of rr' vuln \<Longrightarrow>
   checkReachability vuln rr = checkReachability vuln rr'"
  by (simp add: checkReachability_def)

lemma checkUnusedTransitive_reads_own_key:
  "reachInfo_of rr vuln = reachInfo_of rr' vuln \<Longrightarrow>
   checkUnusedTransitive vuln m rr = checkUnusedTransitive vuln m rr'"
  by (cases m) (simp_all add: checkUnusedTransitive_def)

lemma analyzeVulnerability_reads_own_key:
  assumes "reachabilityMap res (cveId vuln) = reachabilityMap res' (cveId vuln)"
  shows "analyzeVulnerability p vuln m (Some res) = analyzeVulnerability p vuln m (Some res')"
proof -
  have eq: "reachInfo_of (Some res) vuln = reachInfo_of (Some res') vuln"
    using assms by (simp add: reachInfo_of_def)
  show ?thesis
    unfolding analyzeVulnerability_def
      checkDevOnly_reads_own_key[OF eq] checkReachability_reads_own_key[OF eq]
      checkUnusedTransitive_reads_own_key[OF eq] ..
qed

text \<open>
  C5, as amended. Records are keyed by \<open>cveId\<close> alone: the analyzer keeps, for each
  \<open>cveId\<close>, the record of the last finding of the list that carries it, and the
  classifier reads the record stored under the finding's \<open>cveId\<close> and nothing else of the
  map. When the findings of a run have pairwise distinct \<open>cveId\<close>s, the record the
  classifier reads for a finding is the finding's own.
\<close>

theorem records_keyed_by_cveId:
  "reachabilityMap (analyzeReachability vs m cg) c =
     map_option (reachability_record m cg) (last_with_cveId vs c) \<and>
   reachInfo_of (Some (analyzeReachability vs m cg)) vuln =
     map_option (reachability_record m cg) (last_with_cveId vs (cveId vuln)) \<and>
   (distinct (map cveId vs) \<and> vuln \<in> set vs \<longrightarrow>
      reachInfo_of (Some (analyzeReachability vs m cg)) vuln = Some (reachability_record m cg vuln)) \<and>
   (reachabilityMap res (cveId vuln) = reachabilityMap res' (cveId vuln) \<longrightarrow>
      analyzeVulnerability p vuln m (Some res) = analyzeVulnerability p vuln m (Some res'))"
proof -
  have a: "reachInfo_of (Some (analyzeReachability vs m cg)) vuln =
     map_option (reachability_record m cg) (last_with_cveId vs (cveId vuln))"
    by (simp add: reachInfo_of_def reachabilityMap_last)
  have b: "distinct (map cveId vs) \<and> vuln \<in> set vs \<longrightarrow>
      reachInfo_of (Some (analyzeReachability vs m cg)) vuln = Some (reachability_record m cg vuln)"
    using a by (simp add: last_with_cveId_distinct)
  from a b show ?thesis
    using reachabilityMap_last analyzeVulnerability_reads_own_key by blast
qed

text \<open>
  The claim as stated fails: two findings share a \<open>cveId\<close> and name \<open>express\<close> and \<open>jest\<close>.
  One record is kept, that of \<open>jest\<close>, and with it the finding of \<open>express\<close>, a
  production dependency, is classified \<open>DEV_ONLY\<close>; with its own record it is no false
  positive.
\<close>

theorem records_keyed_counterexample:
  "cveId (finding_of ''CVE-2022-4444'' ''express'' ''4.18.2'' []) =
     cveId (finding_of ''CVE-2022-4444'' ''jest'' ''29.0.0'' []) \<and>
   dependency (finding_of ''CVE-2022-4444'' ''express'' ''4.18.2'' []) \<noteq>
     dependency (finding_of ''CVE-2022-4444'' ''jest'' ''29.0.0'' []) \<and>
   reachInfo_of (Some (analyzeReachability
       [finding_of ''CVE-2022-4444'' ''express'' ''4.18.2'' [], finding_of ''CVE-2022-4444'' ''jest'' ''29.0.0'' []]
       (Some shop_manifest) None))
     (finding_of ''CVE-2022-4444'' ''express'' ''4.18.2'' []) =
     Some (reachability_record (Some shop_manifest) None (finding_of ''CVE-2022-4444'' ''jest'' ''29.0.0'' [])) \<and>
   reachability_record (Some shop_manifest) None (finding_of ''CVE-2022-4444'' ''jest'' ''29.0.0'' []) \<noteq>
     reachability_record (Some shop_manifest) None (finding_of ''CVE-2022-4444'' ''express'' ''4.18.2'' []) \<and>
   fp_reason (analyzeVulnerability ''linux'' (finding_of ''CVE-2022-4444'' ''express'' ''4.18.2'' [])
     (Some shop_manifest)
     (Some (analyzeReachability
       [finding_of ''CVE-2022-4444'' ''express'' ''4.18.2'' [], finding_of ''CVE-2022-4444'' ''jest'' ''29.0.0'' []]
       (Some shop_manifest) None))) = Some DEV_ONLY \<and>
   \<not> isFalsePositive (analyzeVulnerability ''linux'' (finding_of ''CVE-2022-4444'' ''express'' ''4.18.2'' [])
     (Some shop_manifest)
     (Some (analyzeReachability [finding_of ''CVE-2022-4444'' ''express'' ''4.18.2'' []]
       (Some shop_manifest) None)))"
  by code_simp

text \<open>Two findings with different \<open>cveId\<close>s.\<close>

theorem records_keyed_by_cveId_witness:
  "reachInfo_of (Some (analyzeReachability
       [finding_of ''CVE-2022-3333'' ''express'' ''4.18.2'' [], finding_of ''CVE-2022-2222'' ''jest'' ''29.0.0'' []]
       (Some shop_manifest) None))
     (finding_of ''CVE-2022-3333'' ''express'' ''4.18.2'' []) =
     Some (reachability_record (Some shop_manifest) None (finding_of ''CVE-2022-3333'' ''express'' ''4.18.2'' [])) \<and>
   analyzeVulnerability ''linux'' (finding_of ''CVE-2022-3333'' ''express'' ''4.18.2'' []) (Some shop_manifest)
     (Some (analyzeReachability
       [finding_of ''CVE-2022-3333'' ''express'' ''4.18.2'' [], finding_of ''CVE-2022-2222'' ''jest'' ''29.0.0'' []]
       (Some shop_manifest) None)) =
   analyzeVulnerability ''linux'' (finding_of ''CVE-2022-3333'' ''express'' ''4.18.2'' []) (Some shop_manifest)
     (Some (analyzeReachability [finding_of ''CVE-2022-3333'' ''express'' ''4.18.2'' []]
       (Some shop_manifest) None))"
proof -
  let ?A = "finding_of ''CVE-2022-3333'' ''express'' ''4.18.2'' []"
  let ?B = "finding_of ''CVE-2022-2222'' ''jest'' ''29.0.0'' []"
  have d: "distinct (map cveId [?A, ?B]) \<and> ?A \<in> set [?A, ?B]"
    by code_simp
  have k: "reachabilityMap (analyzeReachability [?A, ?B] (Some shop_manifest) None) (cveId ?A) =
           reachabilityMap (analyzeReachability [?A] (Some shop_manifest) None) (cveId ?A)"
    by code_simp
  from records_keyed_by_cveId[of "[?A, ?B]" "Some shop_manifest" None _ ?A
      "analyzeReachability [?A, ?B] (Some shop_manifest) None"
      "analyzeReachability [?A] (Some shop_manifest) None" "''linux''"] d k
  show ?thesis by blast
qed

section \<open>Without a manifest; the false-positive rate\<close>

subsection \<open>Rounding errors of the double arithmetic\<close>

lemma round_half_even_error:
  assumes "0 < d"
  shows "\<bar>real (round_half_even n d) - real n / real d\<bar> \<le> 1 / 2"
proof -
  define q where "q = n div d"
  define r where "r = n mod d"
  have n: "n = q * d + r" and r: "r < d"
    using assms by (simp_all add: q_def r_def)
  have quot: "real n / real d = real q + real r / real d"
    using assms n by (simp add: field_simps)
  have dpos: "0 < real d" using assms by simp
  consider "2 * r < d" | "d < 2 * r" | "2 * r = d" by linarith
  then show ?thesis
  proof cases
    case 1
    then have "round_half_even n d = q"
      by (simp add: round_half_even_def q_def r_def Let_def)
    moreover have "real r / real d \<le> 1 / 2"
      using 1 dpos by (simp add: field_simps)
    moreover have "0 \<le> real r / real d" by simp
    ultimately show ?thesis using quot by simp
  next
    case 2
    then have "round_half_even n d = Suc q"
      by (simp add: round_half_even_def q_def r_def Let_def)
    moreover have "1 / 2 \<le> real r / real d"
      using 2 dpos by (simp add: field_simps)
    moreover have "real r / real d \<le> 1"
      using r dpos by (simp add: field_simps)
    ultimately show ?thesis using quot by simp
  next
    case 3
    then have "round_half_even n d = q \<or> round_half_even n d = Suc q"
      by (simp add: round_half_even_def q_def r_def Let_def)
    moreover have "real r / real d = 1 / 2"
      using 3 dpos by (simp add: field_simps)
    ultimately show ?thesis using quot by auto
  qed
qed

text \<open>The exponent chosen by \<open>round_to_double\<close> leaves at least 53 bits before the point.\<close>

lemma exponent_lower:
  assumes n: "0 < n" and d: "0 < d"
    and e0: "e0 = int (bits n) - int (bits d) - 53"
    and below: "below = (if e0 < 0 then n * 2 ^ nat (- e0) < 2 ^ 53 * d
                         else n < 2 ^ 53 * d * 2 ^ nat e0)"
    and e: "e = (if below then e0 else e0 + 1)"
  shows "if e < 0 then 2 ^ 52 * d \<le> n * 2 ^ nat (- e) else 2 ^ 52 * d * 2 ^ nat e \<le> n"
proof -
  from bits_bounds[OF n] have nlo: "2 ^ (bits n - 1) \<le> n" by simp
  from bits_bounds[OF d] have dhi: "d < 2 ^ bits d" by simp
  have bn: "0 < bits n" using n by (rule bits_pos)
  show ?thesis
  proof (cases "e0 < 0")
    case neg: True
    show ?thesis
    proof (cases below)
      case True
      with e neg have ee: "e = e0" "e < 0" by simp_all
      have ex: "(bits n - 1) + nat (- e0) = bits d + 52"
        using e0 neg bn by linarith
      have "2 ^ 52 * d \<le> 2 ^ 52 * 2 ^ bits d"
        using dhi by simp
      also have "\<dots> = (2::nat) ^ (bits d + 52)"
        by (simp add: power_add)
      also have "\<dots> = 2 ^ (bits n - 1) * 2 ^ nat (- e0)"
        using ex by (simp add: power_add[symmetric])
      also have "\<dots> \<le> n * 2 ^ nat (- e0)"
        using nlo by simp
      finally show ?thesis using ee by simp
    next
      case False
      with e have ee: "e = e0 + 1" by simp
      from False below neg have nb: "2 ^ 53 * d \<le> n * 2 ^ nat (- e0)" by simp
      show ?thesis
      proof (cases "e < 0")
        case True
        with ee have k: "nat (- e0) = Suc (nat (- e))" by linarith
        from nb have "2 * (2 ^ 52 * d) \<le> 2 * (n * 2 ^ nat (- e))"
          unfolding k by simp
        then have "2 ^ 52 * d \<le> n * 2 ^ nat (- e)" by linarith
        with True show ?thesis by simp
      next
        case False
        with ee neg have e0m: "e0 = - 1" "e = 0" by linarith+
        with nb have "2 ^ 53 * d \<le> n * 2" by simp
        then have "2 ^ 52 * d \<le> n" by simp
        with e0m show ?thesis by simp
      qed
    qed
  next
    case nonneg: False
    show ?thesis
    proof (cases below)
      case True
      with e nonneg have ee: "e = e0" "\<not> e < 0" by simp_all
      have ex: "bits d + nat e0 + 52 = bits n - 1"
        using e0 nonneg bn by linarith
      have "2 ^ 52 * d * 2 ^ nat e0 \<le> 2 ^ 52 * 2 ^ bits d * 2 ^ nat e0"
        using dhi by simp
      also have "\<dots> = (2::nat) ^ (bits d + nat e0 + 52)"
        by (simp add: power_add)
      also have "\<dots> = 2 ^ (bits n - 1)"
        using ex by simp
      also have "\<dots> \<le> n" by (rule nlo)
      finally show ?thesis using ee by simp
    next
      case False
      with e nonneg have ee: "e = e0 + 1" "\<not> e < 0" by simp_all
      from False below nonneg have nb: "2 ^ 53 * d * 2 ^ nat e0 \<le> n" by simp
      from ee nonneg have k: "nat e = Suc (nat e0)" by linarith
      from nb show ?thesis using ee unfolding k by simp
    qed
  qed
qed

lemma round_to_double_error:
  assumes n: "0 < n" and d: "0 < d"
  shows "\<bar>double_value (round_to_double n d) - real n / real d\<bar> \<le> real n / real d / 2 ^ 53"
proof -
  define e0 where "e0 = int (bits n) - int (bits d) - 53"
  define below where "below = (if e0 < 0 then n * 2 ^ nat (- e0) < 2 ^ 53 * d
                         else n < 2 ^ 53 * d * 2 ^ nat e0)"
  define e where "e = (if below then e0 else e0 + 1)"
  define x where "x = real n / real d"
  have rt: "round_to_double n d =
      (if e < 0 then round_half_even (n * 2 ^ nat (- e)) d
       else round_half_even n (d * 2 ^ nat e), e)"
    using n by (simp add: round_to_double_def Let_def e_def below_def e0_def)
  have lower: "if e < 0 then 2 ^ 52 * d \<le> n * 2 ^ nat (- e) else 2 ^ 52 * d * 2 ^ nat e \<le> n"
    using exponent_lower[OF n d e0_def below_def e_def] .
  have dpos: "0 < real d" using d by simp
  show ?thesis
  proof (cases "e < 0")
    case True
    define k where "k = nat (- e)"
    define m where "m = round_half_even (n * 2 ^ k) d"
    have dv: "double_value (round_to_double n d) = real m / 2 ^ k"
      using True by (simp add: rt double_value_def m_def k_def)
    have "\<bar>real m - real (n * 2 ^ k) / real d\<bar> \<le> 1 / 2"
      unfolding m_def using d by (rule round_half_even_error)
    then have err: "\<bar>real m - x * 2 ^ k\<bar> \<le> 1 / 2"
      by (simp add: x_def)
    have "\<bar>real m / 2 ^ k - x\<bar> = \<bar>real m - x * 2 ^ k\<bar> / 2 ^ k"
      by (simp add: field_simps abs_divide)
    moreover from err have "\<bar>real m - x * 2 ^ k\<bar> / 2 ^ k \<le> 1 / 2 / 2 ^ k"
      by (rule divide_right_mono) simp
    ultimately have e1: "\<bar>real m / 2 ^ k - x\<bar> \<le> 1 / 2 / 2 ^ k"
      by simp
    from lower True have "2 ^ 52 * d \<le> n * 2 ^ k" by (simp add: k_def)
    then have "real (2 ^ 52 * d) \<le> real (n * 2 ^ k)" by (rule of_nat_mono)
    then have "2 ^ 52 * real d \<le> real n * 2 ^ k" by simp
    then have "2 ^ 52 \<le> x * 2 ^ k"
      using dpos by (simp add: x_def field_simps)
    then have "1 / 2 / 2 ^ k \<le> x / 2 ^ 53"
      by (simp add: field_simps)
    with e1 dv show ?thesis by (simp add: x_def)
  next
    case False
    define k where "k = nat e"
    define m where "m = round_half_even n (d * 2 ^ k)"
    have dv: "double_value (round_to_double n d) = real m * 2 ^ k"
      using False by (simp add: rt double_value_def m_def k_def)
    have "\<bar>real m - real n / real (d * 2 ^ k)\<bar> \<le> 1 / 2"
      unfolding m_def using d by (intro round_half_even_error) simp
    then have err: "\<bar>real m - x / 2 ^ k\<bar> \<le> 1 / 2"
      by (simp add: x_def)
    have "\<bar>real m * 2 ^ k - x\<bar> = \<bar>real m - x / 2 ^ k\<bar> * 2 ^ k"
      by (simp add: field_simps abs_mult)
    moreover from err have "\<bar>real m - x / 2 ^ k\<bar> * 2 ^ k \<le> 1 / 2 * 2 ^ k"
      by (rule mult_right_mono) simp
    ultimately have e1: "\<bar>real m * 2 ^ k - x\<bar> \<le> 1 / 2 * 2 ^ k"
      by simp
    from lower False have "2 ^ 52 * d * 2 ^ k \<le> n" by (simp add: k_def)
    then have "real (2 ^ 52 * d * 2 ^ k) \<le> real n" by (rule of_nat_mono)
    then have "2 ^ 52 * real d * 2 ^ k \<le> real n" by simp
    then have "2 ^ 52 * 2 ^ k \<le> x"
      using dpos by (simp add: x_def field_simps)
    then have "1 / 2 * 2 ^ k \<le> x / 2 ^ 53"
      by (simp add: field_simps)
    with e1 dv show ?thesis by (simp add: x_def)
  qed
qed

text \<open>And at most 53 bits.\<close>

lemma exponent_upper:
  assumes n: "0 < n" and d: "0 < d"
    and e0: "e0 = int (bits n) - int (bits d) - 53"
    and below: "below = (if e0 < 0 then n * 2 ^ nat (- e0) < 2 ^ 53 * d
                         else n < 2 ^ 53 * d * 2 ^ nat e0)"
    and e: "e = (if below then e0 else e0 + 1)"
  shows "if e < 0 then n * 2 ^ nat (- e) < 2 ^ 53 * d else n < 2 ^ 53 * d * 2 ^ nat e"
proof (cases below)
  case True
  with e below show ?thesis by (simp split: if_splits)
next
  case False
  with e have ee: "e = e0 + 1" by simp
  from bits_bounds[OF n] have nhi: "n < 2 ^ bits n" by simp
  from bits_bounds[OF d] have dlo: "2 ^ (bits d - 1) \<le> d" by simp
  have bd: "0 < bits d" using d by (rule bits_pos)
  show ?thesis
  proof (cases "e < 0")
    case True
    have ex: "bits n + nat (- e) = 53 + (bits d - 1)"
      using e0 ee True bd by linarith
    have "n * 2 ^ nat (- e) < 2 ^ bits n * 2 ^ nat (- e)"
      using nhi by simp
    also have "\<dots> = (2::nat) ^ (bits n + nat (- e))"
      by (simp add: power_add)
    also have "\<dots> = 2 ^ 53 * 2 ^ (bits d - 1)"
      unfolding ex by (simp add: power_add)
    also have "\<dots> \<le> 2 ^ 53 * d"
      using dlo by simp
    finally show ?thesis using True by simp
  next
    case False
    have ex: "bits n = 53 + (bits d - 1) + nat e"
      using e0 ee False bd by linarith
    have "n < 2 ^ bits n" by (rule nhi)
    also have "\<dots> = 2 ^ 53 * 2 ^ (bits d - 1) * (2::nat) ^ nat e"
      by (subst ex) (simp add: power_add)
    also have "\<dots> \<le> 2 ^ 53 * d * 2 ^ nat e"
      using dlo by simp
    finally show ?thesis using False by simp
  qed
qed

lemma round_half_even_range:
  assumes d: "0 < d" and lo: "L * d \<le> n" and hi: "n \<le> U * d"
  shows "L \<le> round_half_even n d \<and> round_half_even n d \<le> U"
proof -
  have dpos: "0 < real d" using d by simp
  have "real (L * d) \<le> real n" using lo by (rule of_nat_mono)
  then have l: "real L \<le> real n / real d"
    using dpos by (simp add: field_simps)
  have "real n \<le> real (U * d)" using hi by (rule of_nat_mono)
  then have u: "real n / real d \<le> real U"
    using dpos by (simp add: field_simps)
  from round_half_even_error[OF d, of n] l u
  have "real L - 1 / 2 \<le> real (round_half_even n d)"
    and "real (round_half_even n d) \<le> real U + 1 / 2"
    by linarith+
  then show ?thesis by linarith
qed

text \<open>
  So \<open>round_to_double\<close> returns a number with a mantissa of 53 bits (or the power of two
  above them, when the rounding carries).
\<close>

lemma round_to_double_mantissa:
  assumes n: "0 < n" and d: "0 < d"
  shows "2 ^ 52 \<le> fst (round_to_double n d) \<and> fst (round_to_double n d) \<le> 2 ^ 53"
proof -
  define e0 where "e0 = int (bits n) - int (bits d) - 53"
  define below where "below = (if e0 < 0 then n * 2 ^ nat (- e0) < 2 ^ 53 * d
                         else n < 2 ^ 53 * d * 2 ^ nat e0)"
  define e where "e = (if below then e0 else e0 + 1)"
  have rt: "round_to_double n d =
      (if e < 0 then round_half_even (n * 2 ^ nat (- e)) d
       else round_half_even n (d * 2 ^ nat e), e)"
    using n by (simp add: round_to_double_def Let_def e_def below_def e0_def)
  have lower: "if e < 0 then 2 ^ 52 * d \<le> n * 2 ^ nat (- e) else 2 ^ 52 * d * 2 ^ nat e \<le> n"
    using exponent_lower[OF n d e0_def below_def e_def] .
  have upper: "if e < 0 then n * 2 ^ nat (- e) < 2 ^ 53 * d else n < 2 ^ 53 * d * 2 ^ nat e"
    using exponent_upper[OF n d e0_def below_def e_def] .
  show ?thesis
  proof (cases "e < 0")
    case True
    with lower upper have "2 ^ 52 * d \<le> n * 2 ^ nat (- e)" "n * 2 ^ nat (- e) \<le> 2 ^ 53 * d"
      by simp_all
    from round_half_even_range[OF d this] True show ?thesis
      by (simp add: rt)
  next
    case False
    with lower upper have "2 ^ 52 * (d * 2 ^ nat e) \<le> n" "n \<le> 2 ^ 53 * (d * 2 ^ nat e)"
      by (simp_all add: mult.assoc)
    moreover have "0 < d * 2 ^ nat e" using d by simp
    ultimately have "2 ^ 52 \<le> round_half_even n (d * 2 ^ nat e) \<and>
        round_half_even n (d * 2 ^ nat e) \<le> 2 ^ 53"
      by (intro round_half_even_range)
    with False show ?thesis
      by (simp add: rt)
  qed
qed

lemma round_to_double_zero: "double_value (round_to_double 0 d) = 0"
  by (simp add: round_to_double_def double_value_def)

lemma double_value_nonneg: "0 \<le> double_value x"
  by (simp add: double_value_def)

lemma double_times_error:
  assumes k: "0 < k"
  shows "\<bar>double_value (double_times x k) - double_value x * real k\<bar>
           \<le> double_value x * real k / 2 ^ 53"
proof -
  obtain m e where x: "x = (m, e)" by (cases x)
  show ?thesis
  proof (cases "m = 0")
    case True
    have "double_value (double_times x k) = 0"
      using True by (cases "e < 0") (simp_all add: x double_times_def round_to_double_zero)
    moreover have "double_value x = 0"
      using True by (simp add: x double_value_def)
    ultimately show ?thesis by simp
  next
    case False
    then have mk: "0 < m * k" using k by simp
    show ?thesis
    proof (cases "e < 0")
      case True
      have dt: "double_times x k = round_to_double (m * k) (2 ^ nat (- e))"
        using True by (simp add: x double_times_def)
      have eq: "real (m * k) / real ((2::nat) ^ nat (- e)) = double_value x * real k"
        using True by (simp add: x double_value_def)
      have "\<bar>double_value (round_to_double (m * k) (2 ^ nat (- e))) -
              real (m * k) / real ((2::nat) ^ nat (- e))\<bar>
            \<le> real (m * k) / real ((2::nat) ^ nat (- e)) / 2 ^ 53"
        using mk by (intro round_to_double_error) simp_all
      then show ?thesis
        unfolding dt eq .
    next
      case False
      have dt: "double_times x k = round_to_double (m * k * 2 ^ nat e) 1"
        using False by (simp add: x double_times_def)
      have eq: "real (m * k * 2 ^ nat e) / real (1::nat) = double_value x * real k"
        using False by (simp add: x double_value_def)
      have "\<bar>double_value (round_to_double (m * k * 2 ^ nat e) 1) -
              real (m * k * 2 ^ nat e) / real (1::nat)\<bar>
            \<le> real (m * k * 2 ^ nat e) / real (1::nat) / 2 ^ 53"
        using mk by (intro round_to_double_error) simp_all
      then show ?thesis
        unfolding dt eq .
    qed
  qed
qed

lemma math_round_eq:
  assumes lo: "real E \<le> double_value x + 1 / 2" and hi: "double_value x + 1 / 2 < real E + 1"
  shows "math_round x = E"
proof -
  obtain m e where x: "x = (m, e)" by (cases x)
  show ?thesis
  proof (cases "e < 0")
    case True
    define j where "j = nat (- e)"
    have dv: "double_value x = real m / 2 ^ j"
      using True by (simp add: x double_value_def j_def)
    have p: "(0::real) < 2 ^ j" by simp
    from lo have "real E * (2 * 2 ^ j) \<le> 2 * real m + 2 ^ j"
      unfolding dv using p by (simp add: field_simps)
    then have "real (E * (2 * 2 ^ j)) \<le> real (2 * m + 2 ^ j)" by simp
    then have a: "(2 * 2 ^ j) * E \<le> 2 * m + 2 ^ j"
      unfolding of_nat_le_iff by (simp add: mult.commute)
    from hi have "real m / 2 ^ j < real E + 1 / 2"
      unfolding dv by simp
    then have "real m < (real E + 1 / 2) * 2 ^ j"
      using p by (simp add: pos_divide_less_eq)
    then have "2 * real m + 2 ^ j < (real E + 1) * (2 * 2 ^ j)"
      by (simp add: algebra_simps)
    then have "real (2 * m + 2 ^ j) < real (Suc E * (2 * 2 ^ j))" by (simp add: algebra_simps)
    then have b: "2 * m + 2 ^ j < (2 * 2 ^ j) * Suc E"
      unfolding of_nat_less_iff by (simp add: mult.commute)
    have "(2 * m + 2 ^ j) div (2 * 2 ^ j) = E"
      using a b by (rule div_nat_eqI)
    then show ?thesis
      using True by (simp add: x math_round_def j_def)
  next
    case False
    define N where "N = m * 2 ^ nat e"
    have dv: "double_value x = real N"
      using False by (simp add: x double_value_def N_def)
    from lo hi have "real E \<le> real N + 1 / 2" "real N + 1 / 2 < real E + 1"
      unfolding dv by simp_all
    then have "N = E" by linarith
    then show ?thesis
      using False by (simp add: x math_round_def N_def)
  qed
qed

lemma math_round_zero: "math_round (double_times (double_div 0 b) k) = 0"
  by (simp add: double_div_def round_to_double_def double_times_def math_round_def)

lemma percent_error:
  assumes a: "0 < a" and ab: "a \<le> b"
  shows "\<bar>double_value (double_times (double_div a b) 100) - 100 * real a / real b\<bar>
           \<le> 300 / 2 ^ 53"
proof -
  define q where "q = double_value (double_div a b)"
  define p where "p = double_value (double_times (double_div a b) 100)"
  define x where "x = real a / real b"
  have b: "0 < b" using a ab by simp
  have x01: "0 \<le> x" "x \<le> 1"
    using a ab b by (simp_all add: x_def)
  have "\<bar>q - x\<bar> \<le> x / 2 ^ 53"
    unfolding q_def x_def double_div_def using a b by (rule round_to_double_error)
  with x01 have qx: "\<bar>q - x\<bar> \<le> 1 / 2 ^ 53"
    by (simp add: field_simps)
  then have "\<bar>q - x\<bar> \<le> 1"
    by (rule order_trans) simp
  then have q2: "q \<le> 2" using x01 by linarith
  have q0: "0 \<le> q" unfolding q_def by (rule double_value_nonneg)
  have "\<bar>p - q * real (100::nat)\<bar> \<le> q * real (100::nat) / 2 ^ 53"
    unfolding p_def q_def by (rule double_times_error) simp
  then have "\<bar>p - 100 * q\<bar> \<le> 100 * q / 2 ^ 53"
    by (simp add: mult.commute)
  also have "\<dots> \<le> 200 / 2 ^ 53"
    using q2 by simp
  finally have pq: "\<bar>p - 100 * q\<bar> \<le> 200 / 2 ^ 53" .
  have tri: "\<bar>(p - 100 * q) + 100 * (q - x)\<bar> \<le> \<bar>p - 100 * q\<bar> + \<bar>100 * (q - x)\<bar>"
    by (rule abs_triangle_ineq)
  have am: "\<bar>100 * (q - x)\<bar> = 100 * \<bar>q - x\<bar>"
    by (subst abs_mult) simp
  have dec: "(p - 100 * q) + 100 * (q - x) = p - 100 * x"
    by (simp add: algebra_simps)
  from tri have "\<bar>p - 100 * x\<bar> \<le> \<bar>p - 100 * q\<bar> + 100 * \<bar>q - x\<bar>"
    unfolding am dec .
  also have "\<dots> \<le> 200 / 2 ^ 53 + 100 * (1 / 2 ^ 53)"
    using pq qx by (intro add_mono mult_left_mono) simp_all
  also have "\<dots> = 300 / 2 ^ 53" by simp
  finally show ?thesis
    by (simp add: p_def x_def)
qed

lemma rate_not_tie:
  assumes a: "0 < a" and ab: "a \<le> b" and small: "b < 2 ^ 32"
    and tie: "(200 * a + b) mod (2 * b) \<noteq> 0"
  shows "math_round (double_times (double_div a b) 100) = nearest_percent a b"
proof -
  define E where "E = (200 * a + b) div (2 * b)"
  define r where "r = (200 * a + b) mod (2 * b)"
  define p where "p = double_value (double_times (double_div a b) 100)"
  have b: "0 < b" using a ab by simp
  have bpos: "0 < real b" using b by simp
  have split: "200 * a + b = 2 * b * E + r"
    by (simp add: E_def r_def)
  have r1: "1 \<le> r" using tie by (simp add: r_def)
  have r2: "r + 1 \<le> 2 * b"
    using b by (simp add: r_def Suc_leI)
  have "real (200 * a + b) = real (2 * b * E + r)"
    using split by simp
  then have x: "100 * real a / real b + 1 / 2 = real E + real r / (2 * real b)"
    using bpos by (simp add: field_simps)
  have "1 \<le> real r" using r1 by simp
  then have rlo: "1 / (2 * real b) \<le> real r / (2 * real b)"
    using bpos by (simp add: divide_right_mono)
  have "real (r + 1) \<le> real (2 * b)" using r2 by (rule of_nat_mono)
  then have "real r \<le> 2 * real b - 1" by simp
  then have "real r / (2 * real b) \<le> (2 * real b - 1) / (2 * real b)"
    using bpos by (simp add: divide_right_mono)
  also have "\<dots> = 1 - 1 / (2 * real b)"
    using bpos by (simp add: field_simps)
  finally have rhi: "real r / (2 * real b) \<le> 1 - 1 / (2 * real b)" .
  have "real b < 2 ^ 32"
    using small by (metis of_nat_less_iff of_nat_numeral of_nat_power)
  then have "600 * real b < 2 ^ 53" by simp
  then have gap: "300 / 2 ^ 53 < 1 / (2 * real b)"
    using bpos by (simp add: field_simps)
  have err: "\<bar>p - 100 * real a / real b\<bar> \<le> 300 / 2 ^ 53"
    unfolding p_def using a ab by (rule percent_error)
  have lo: "real E \<le> p + 1 / 2"
    using err x rlo gap by linarith
  have hi: "p + 1 / 2 < real E + 1"
    using err x rhi gap by linarith
  have "math_round (double_times (double_div a b) 100) = E"
    using lo hi unfolding p_def by (rule math_round_eq)
  then show ?thesis
    by (simp add: nearest_percent_def E_def)
qed

lemma calculateFpRate_not_tie:
  assumes "0 < fp + tv" and "fp + tv < 2 ^ 32"
    and "(200 * fp + (fp + tv)) mod (2 * (fp + tv)) \<noteq> 0"
  shows "calculateFpRate fp tv = nearest_percent fp (fp + tv)"
proof (cases "fp = 0")
  case True
  with assms show ?thesis
    by (simp add: calculateFpRate_def Let_def math_round_zero nearest_percent_def)
next
  case False
  then have "math_round (double_times (double_div fp (fp + tv)) 100) = nearest_percent fp (fp + tv)"
    using assms by (intro rate_not_tie) simp_all
  with False show ?thesis
    by (simp add: calculateFpRate_def Let_def)
qed

subsection \<open>The verdicts without a manifest\<close>

lemma no_manifest_verdict:
  "fp_reason (analyzeVulnerability p vuln None rr) \<noteq> Some DEV_ONLY \<and>
   fp_reason (analyzeVulnerability p vuln None rr) \<noteq> Some VERSION_MISMATCH"
proof -
  have v: "\<not> isFalsePositive (checkVersionMismatch vuln None)"
    by (simp add: checkVersionMismatch_def check_default_def)
  have d: "\<not> isFalsePositive (checkDevOnlyDependency vuln None rr)"
    by (simp add: checkDevOnlyDependency_def check_default_def)
  have t: "\<not> isFalsePositive (checkUnusedTransitive vuln None rr)"
    by (simp add: checkUnusedTransitive_def check_default_def)
  have e: "fp_reason (checkEnvironmentMismatch p vuln None) = Some ENV_MISMATCH"
    by (rule checkEnvironmentMismatch_reason)
  have r: "fp_reason (checkReachability vuln rr) = Some NON_REACHABLE"
    by (simp add: checkReachability_def check_default_def split: option.splits)
  show ?thesis
    using v d t e r by (simp add: analyzeVulnerability_def Let_def)
qed

lemma detect_loop_reason:
  "e \<in> set (detect_loop p m rr vs) \<Longrightarrow>
   \<exists>vuln \<in> set vs. entry_reason e = fp_reason (analyzeVulnerability p vuln m rr)"
  by (induction vs) (auto simp: Let_def split: if_splits)

text \<open>
  C9, as amended. When no manifest is supplied, no false positive has the reason
  \<open>DEV_ONLY\<close> or \<open>VERSION_MISMATCH\<close>. The false-positive rate is computable all the same: it
  is 0 when there is no finding, and otherwise (for fewer than \<open>2^32\<close> findings, the
  bound of an array) it is the integer nearest to \<open>100 * fp / total\<close> whenever that
  percentage is not exactly halfway between two integers.
\<close>

theorem no_manifest_reasons_and_rate:
  "(\<forall>e \<in> set (detectFalsePositives p vs None rr).
      entry_reason e \<noteq> Some DEV_ONLY \<and> entry_reason e \<noteq> Some VERSION_MISMATCH) \<and>
   calculateFpRate 0 0 = 0 \<and>
   (0 < fp + tv \<and> fp + tv < 2 ^ 32 \<and> (200 * fp + (fp + tv)) mod (2 * (fp + tv)) \<noteq> 0 \<longrightarrow>
      calculateFpRate fp tv = nearest_percent fp (fp + tv))"
proof -
  have a: "\<forall>e \<in> set (detectFalsePositives p vs None rr).
      entry_reason e \<noteq> Some DEV_ONLY \<and> entry_reason e \<noteq> Some VERSION_MISMATCH"
  proof
    fix e
    assume "e \<in> set (detectFalsePositives p vs None rr)"
    then obtain vuln where "entry_reason e = fp_reason (analyzeVulnerability p vuln None rr)"
      using detect_loop_reason unfolding detectFalsePositives_def by blast
    then show "entry_reason e \<noteq> Some DEV_ONLY \<and> entry_reason e \<noteq> Some VERSION_MISMATCH"
      using no_manifest_verdict by simp
  qed
  have z: "calculateFpRate 0 0 = 0"
    by (simp add: calculateFpRate_def)
  have c: "0 < fp + tv \<and> fp + tv < 2 ^ 32 \<and> (200 * fp + (fp + tv)) mod (2 * (fp + tv)) \<noteq> 0 \<longrightarrow>
      calculateFpRate fp tv = nearest_percent fp (fp + tv)"
  proof
    assume h: "0 < fp + tv \<and> fp + tv < 2 ^ 32 \<and> (200 * fp + (fp + tv)) mod (2 * (fp + tv)) \<noteq> 0"
    then have "0 < fp + tv" and "fp + tv < 2 ^ 32"
      and "(200 * fp + (fp + tv)) mod (2 * (fp + tv)) \<noteq> 0"
      by blast+
    then show "calculateFpRate fp tv = nearest_percent fp (fp + tv)"
      by (rule calculateFpRate_not_tie)
  qed
  from a z c show ?thesis
    by (intro conjI)
qed

text \<open>
  The claim as stated fails on the rate: 23 false positives among 40 findings are 57.5
  percent, which rounds to 58, and the source returns 57, since the double product
  \<open>(23 / 40) * 100\<close> is \<open>57.49999999999999\<close>.
\<close>

theorem fp_rate_counterexample:
  "calculateFpRate 23 17 = 57 \<and> nearest_percent 23 (23 + 17) = 58"
  by (simp add: calculateFpRate_def math_round_def double_times_def double_div_def
      round_to_double_def round_half_even_def bits.simps nearest_percent_def)

text \<open>
  Without a manifest, a finding that the call graph does not reference is a false
  positive with reason \<open>NON_REACHABLE\<close>; one false positive among three findings is 33
  percent.
\<close>

theorem no_manifest_reasons_and_rate_witness:
  "unreferenced_entry \<in> set (detectFalsePositives ''linux''
       [finding_of ''CVE-2022-2222'' ''jest'' ''29.0.0'' []] None
       (Some (analyzeReachability [finding_of ''CVE-2022-2222'' ''jest'' ''29.0.0'' []] None
          (Some declared_graph)))) \<and>
   entry_reason unreferenced_entry \<noteq> Some DEV_ONLY \<and>
   entry_reason unreferenced_entry \<noteq> Some VERSION_MISMATCH \<and>
   calculateFpRate 1 2 = 33"
proof -
  have mem: "unreferenced_entry \<in> set (detectFalsePositives ''linux''
       [finding_of ''CVE-2022-2222'' ''jest'' ''29.0.0'' []] None
       (Some (analyzeReachability [finding_of ''CVE-2022-2222'' ''jest'' ''29.0.0'' []] None
          (Some declared_graph))))"
    by code_simp
  have hyp: "0 < (1::nat) + 2 \<and> (1::nat) + 2 < 2 ^ 32 \<and>
      (200 * 1 + (1 + 2)) mod (2 * (1 + 2)) \<noteq> (0::nat)"
    by simp
  have np: "nearest_percent 1 (1 + 2) = 33"
    by code_simp
  from no_manifest_reasons_and_rate[of "''linux''"
      "[finding_of ''CVE-2022-2222'' ''jest'' ''29.0.0'' []]"
      "Some (analyzeReachability [finding_of ''CVE-2022-2222'' ''jest'' ''29.0.0'' []] None
          (Some declared_graph))" 1 2] mem hyp np
  show ?thesis by auto
qed

section \<open>The dependency matcher\<close>

text \<open>
  What the matcher does: it returns the first entry of the map, in the order of its
  entries, that matches in either way, flagged as partial unless its normalized name
  equals the search name; and nothing when no entry matches.
\<close>

lemma findMatch_loop_first:
  "findMatch_loop normalizedSearch deps =
     map_option (\<lambda>entry.
         \<lparr>match_name = fst entry, match_version = info_version (snd entry),
          match_info = snd entry,
          partialMatch = (normalizePackageName (fst entry) \<noteq> normalizedSearch)\<rparr>)
       (find (entry_matches normalizedSearch) deps)"
  by (induction deps) (auto simp: entry_matches_def includes_str_def Let_def)

text \<open>
  C4. The matcher does not prefer an exact match: the manifest lists \<open>react\<close> before
  \<open>react-dom\<close>, as a package.json in alphabetical order does, and the search for
  \<open>react-dom\<close> returns the entry \<open>react\<close>, flagged as a partial match, although the
  entry \<open>react-dom\<close> matches exactly. The loop returns at the first entry that matches
  in either way.
\<close>

theorem partial_match_precedes_exact:
  "findDependencyMatch ''react-dom''
     [(''react'', Ver ''18.2.0''), (''react-dom'', Ver ''18.3.1'')] =
   Some \<lparr>match_name = ''react'', match_version = ''18.2.0'',
         match_info = Ver ''18.2.0'', partialMatch = True\<rparr>"
  by code_simp

end
